theory Spec2Isabelle
  imports Complex_Main "HOL-Library.Word"
begin

unbundle bit_operations_syntax

chapter \<open>The embedding\<close>

text \<open>
  Four unrelated leaves of the application: the integer range template of \<^verbatim>\<open>blenlib\<close>, the
  map-range node of the shader virtual machine, the reflection callbacks of palettes, and
  the LANPR operators that turn feature-line chains into grease-pencil strokes. This chapter
  translates the code; the next one states and proves its properties.
\<close>

section \<open>BLI\_range.hpp: ranges of integers\<close>

text \<open>
  \<^verbatim>\<open>Range<T>\<close> is a class template over the integer type \<^verbatim>\<open>T\<close>, while \<^verbatim>\<open>size()\<close> and
  \<^verbatim>\<open>slice\<close> compute in \<^verbatim>\<open>uint\<close>, the 32-bit unsigned integer. The embedding takes \<^verbatim>\<open>T\<close> to
  be an unsigned integer type of any width, the words of that many bits: \<^verbatim>\<open>uint\<close> at 32
  bits, \<^verbatim>\<open>uint64_t\<close> at 64. On \<^verbatim>\<open>T\<close>, \<open>+\<close> and \<open>-\<close> wrap around at the width and \<open>\<le>\<close> and
  \<open><\<close> compare unsigned values. Where the code mixes \<^verbatim>\<open>T\<close> and \<^verbatim>\<open>uint\<close>, the conversions of
  C++ are written out. The signed instances of the template, which compare by sign and
  whose overflow is undefined, are not embedded.
\<close>

type_synonym uint = "32 word"

datatype failure = AssertFailed

text \<open>
  Modelled from the spec: \<^verbatim>\<open>BLI_assert\<close> is a macro of \<^verbatim>\<open>BLI_utildefines.h\<close>, which is
  not part of the excerpt. A violated assertion "must fail fast in debug builds"; a release
  build does not evaluate it. The flag \<open>debug\<close> says which build runs.
\<close>

definition BLI_assert :: "bool \<Rightarrow> bool \<Rightarrow> failure + unit" where
  "BLI_assert debug c = (if debug \<and> \<not> c then Inl AssertFailed else Inr ())"

record 'T Range =
  m_start :: 'T
  m_one_after_last :: 'T

text \<open>\<^verbatim>\<open>Range(T start, T one_after_last)\<close>: stores both fields, then asserts.\<close>

definition Range_ctor :: "bool \<Rightarrow> 'a::len word \<Rightarrow> 'a word \<Rightarrow> failure + 'a word Range" where
  "Range_ctor debug start one_after_last =
     (case BLI_assert debug (start \<le> one_after_last) of
        Inl e \<Rightarrow> Inl e
      | Inr _ \<Rightarrow> Inr \<lparr>m_start = start, m_one_after_last = one_after_last\<rparr>)"

text \<open>The nested class \<^verbatim>\<open>Iterator\<close> with its three operators.\<close>

record 'T Iterator =
  m_range :: "'T Range"
  m_current :: 'T

definition Iterator_incr :: "'a::len word Iterator \<Rightarrow> 'a word Iterator" where
  "Iterator_incr it = it\<lparr>m_current := m_current it + 1\<rparr>"

definition Iterator_neq :: "'a::len word Iterator \<Rightarrow> 'a word Iterator \<Rightarrow> bool" where
  "Iterator_neq a b = (m_current a \<noteq> m_current b)"

definition Iterator_deref :: "'a::len word Iterator \<Rightarrow> 'a word" where
  "Iterator_deref it = m_current it"

definition Range_begin :: "'a::len word Range \<Rightarrow> 'a word Iterator" where
  "Range_begin r = \<lparr>m_range = r, m_current = m_start r\<rparr>"

definition Range_end :: "'a::len word Range \<Rightarrow> 'a word Iterator" where
  "Range_end r = \<lparr>m_range = r, m_current = m_one_after_last r\<rparr>"

text \<open>
  The loop \<^verbatim>\<open>for (it = begin(); it != end(); ++it) yield *it\<close>. It ends by inequality of
  the current values, not by order, so on a range with \<open>start > one_after_last\<close> it runs
  through the wrap-around; on values of a fixed width it always ends.
\<close>

lemma unat_diff_succ:
  fixes cur fin :: "'a::len word"
  assumes "cur \<noteq> fin"
  shows "unat (fin - (cur + 1)) = unat (fin - cur) - 1" and "0 < unat (fin - cur)"
proof -
  from assms have nz: "fin - cur \<noteq> 0" by simp
  then show "unat (fin - (cur + 1)) = unat (fin - cur) - 1"
    using unat_minus_one[of "fin - cur"] by (simp add: diff_diff_eq)
  from nz show "0 < unat (fin - cur)" by (simp add: unat_gt_0)
qed

function iterate :: "'a::len word Iterator \<Rightarrow> 'a word Iterator \<Rightarrow> 'a word list" where
  "iterate it fin =
     (if Iterator_neq it fin then Iterator_deref it # iterate (Iterator_incr it) fin else [])"
  by pat_completeness auto
termination
proof (relation "measure (\<lambda>(it, fin). unat (m_current fin - m_current it))")
  show "wf (measure (\<lambda>(it :: 'a word Iterator, fin). unat (m_current fin - m_current it)))"
    by simp
next
  fix it fin :: "'a word Iterator"
  assume "Iterator_neq it fin"
  then show "((Iterator_incr it, fin), (it, fin))
               \<in> measure (\<lambda>(it, fin). unat (m_current fin - m_current it))"
    using unat_diff_succ[of "m_current it" "m_current fin"]
    by (simp add: Iterator_neq_def Iterator_incr_def)
qed

declare iterate.simps [simp del]

definition Range_values :: "'a::len word Range \<Rightarrow> 'a word list" where
  "Range_values r = iterate (Range_begin r) (Range_end r)"

definition Range_eq :: "'a::len word Range \<Rightarrow> 'a word Range \<Rightarrow> bool" where
  "Range_eq a b = (m_start a = m_start b \<and> m_one_after_last a = m_one_after_last b)"

text \<open>
  \<^verbatim>\<open>uint size()\<close> returns \<^verbatim>\<open>m_one_after_last - m_start\<close>. The difference is computed in
  \<^verbatim>\<open>T\<close> (in \<^verbatim>\<open>int\<close> when \<^verbatim>\<open>T\<close> is narrower than \<^verbatim>\<open>int\<close>) and converted to \<^verbatim>\<open>uint\<close>; either way
  the result is the difference of the two values modulo \<open>2\<^sup>3\<^sup>2\<close>. At a \<^verbatim>\<open>T\<close> wider than
  \<^verbatim>\<open>uint\<close> the conversion truncates.
\<close>

definition Range_size :: "'a::len word Range \<Rightarrow> uint" where
  "Range_size r = of_int (uint (m_one_after_last r) - uint (m_start r))"

definition Range_contains :: "'a::len word Range \<Rightarrow> 'a word \<Rightarrow> bool" where
  "Range_contains r v = (v \<ge> m_start r \<and> v < m_one_after_last r)"


text \<open>A concrete input: the range \<^verbatim>\<open>Range<uint64_t>(0, 4294967299)\<close>, of \<open>2\<^sup>3\<^sup>2 + 3\<close> numbers.\<close>

definition wide_range :: "64 word Range" where
  "wide_range = \<lparr>m_start = 0, m_one_after_last = 4294967299\<rparr>"


section \<open>svm\_map\_range.h: the map-range node\<close>

subsection \<open>Single-precision arithmetic\<close>

text \<open>
  The node computes in C \<^verbatim>\<open>float\<close>: IEEE 754 binary32 with round-to-nearest-even, gradual
  underflow and no traps, which is what the expression means when the kernel is compiled
  without value-changing optimisations. A \<open>float\<close> is a NaN, an infinity or a zero with
  its sign (\<open>True\<close> is negative), or a non-zero finite value, kept as the rational number
  it denotes.

  \<open>quantum u q\<close> doubles the spacing \<open>u\<close> until \<open>\<bar>q\<bar> < 2\<^sup>2\<^sup>4 * u\<close>; started at
  \<open>2\<^sup>-\<^sup>1\<^sup>4\<^sup>9\<close>, the spacing of the subnormal numbers, it yields the spacing of the binade
  of \<open>q\<close>. \<open>rne\<close> rounds to the nearest multiple of that spacing, ties to the even
  multiple; \<open>round32\<close> adds overflow to infinity and the sign of a result that rounds to
  zero. A finite value is a \<open>valid\<close> float when rounding leaves it unchanged.
\<close>

datatype float = NaN | Inf bool | Zero bool | Fin rat

definition min_quantum :: rat where
  "min_quantum = 1 / 2 ^ 149"

function quantum :: "rat \<Rightarrow> rat \<Rightarrow> rat" where
  "quantum u q = (if 0 < u \<and> 2 ^ 24 * u \<le> \<bar>q\<bar> then quantum (2 * u) q else u)"
  by pat_completeness auto
termination
proof (relation "measure (\<lambda>(u, q). nat \<lfloor>\<bar>q\<bar> / u\<rfloor>)")
  show "wf (measure (\<lambda>(u, q). nat \<lfloor>\<bar>q\<bar> / u\<rfloor>))" by simp
next
  fix u q :: rat
  assume a: "0 < u \<and> 2 ^ 24 * u \<le> \<bar>q\<bar>"
  define x where "x = \<bar>q\<bar> / u"
  from a have x: "2 ^ 24 \<le> x" by (simp add: x_def pos_le_divide_eq)
  have "of_int \<lfloor>x / 2\<rfloor> \<le> x / 2" by (rule of_int_floor_le)
  with x have "of_int (\<lfloor>x / 2\<rfloor> + 1) \<le> x" by simp
  then have "\<lfloor>x / 2\<rfloor> + 1 \<le> \<lfloor>x\<rfloor>" by (simp only: le_floor_iff)
  then have lt: "\<lfloor>x / 2\<rfloor> < \<lfloor>x\<rfloor>" by simp
  have "(1::rat) \<le> x" using x by simp
  then have pos: "0 < \<lfloor>x\<rfloor>" by (simp add: less_floor_iff)
  have h: "\<bar>q\<bar> / (2 * u) = x / 2" by (simp add: x_def)
  from lt pos have "nat \<lfloor>x / 2\<rfloor> < nat \<lfloor>x\<rfloor>" by linarith
  then have "nat \<lfloor>\<bar>q\<bar> / (2 * u)\<rfloor> < nat \<lfloor>\<bar>q\<bar> / u\<rfloor>"
    by (simp only: h x_def[symmetric])
  then show "((2 * u, q), (u, q)) \<in> measure (\<lambda>(u, q). nat \<lfloor>\<bar>q\<bar> / u\<rfloor>)"
    by (simp only: in_measure prod.case)
qed

declare quantum.simps [simp del]

definition round_half_even :: "rat \<Rightarrow> int" where
  "round_half_even x =
     (let f = \<lfloor>x\<rfloor>; d = x - of_int f in
      if d < 1 / 2 then f else if 1 / 2 < d then f + 1 else if even f then f else f + 1)"

definition rne :: "rat \<Rightarrow> rat" where
  "rne q = (let u = quantum min_quantum q in of_int (round_half_even (q / u)) * u)"


definition round32 :: "rat \<Rightarrow> float" where
  "round32 q =
     (let r = rne q in
      if 2 ^ 128 \<le> \<bar>r\<bar> then Inf (q < 0) else if r = 0 then Zero (q < 0) else Fin r)"

fun valid :: "float \<Rightarrow> bool" where
  "valid (Fin q) = (q \<noteq> 0 \<and> rne q = q \<and> \<bar>q\<bar> < 2 ^ 128)"
| "valid _ = True"

fun is_zero :: "float \<Rightarrow> bool" where
  "is_zero (Zero s) = True"
| "is_zero _ = False"

fun is_finite :: "float \<Rightarrow> bool" where
  "is_finite (Zero s) = True"
| "is_finite (Fin q) = True"
| "is_finite _ = False"

text \<open>
  The four operations and the comparison of C. \<^verbatim>\<open>x - y\<close> is \<open>x + (-y)\<close>, exact zero sums
  are \<open>+0\<close>, the sign of a zero product or quotient is the exclusive or of the signs, and
  \<^verbatim>\<open>!=\<close> is true as soon as one side is a NaN and false on two zeros of either sign.
\<close>

fun fneg :: "float \<Rightarrow> float" where
  "fneg NaN = NaN"
| "fneg (Inf s) = Inf (\<not> s)"
| "fneg (Zero s) = Zero (\<not> s)"
| "fneg (Fin q) = Fin (- q)"

fun fadd :: "float \<Rightarrow> float \<Rightarrow> float" where
  "fadd NaN _ = NaN"
| "fadd _ NaN = NaN"
| "fadd (Inf s) (Inf t) = (if s = t then Inf s else NaN)"
| "fadd (Inf s) _ = Inf s"
| "fadd _ (Inf t) = Inf t"
| "fadd (Zero s) (Zero t) = Zero (s \<and> t)"
| "fadd (Zero s) (Fin b) = Fin b"
| "fadd (Fin a) (Zero t) = Fin a"
| "fadd (Fin a) (Fin b) = round32 (a + b)"

definition fsub :: "float \<Rightarrow> float \<Rightarrow> float" where
  "fsub a b = fadd a (fneg b)"

fun fmul :: "float \<Rightarrow> float \<Rightarrow> float" where
  "fmul NaN _ = NaN"
| "fmul _ NaN = NaN"
| "fmul (Inf s) (Zero t) = NaN"
| "fmul (Zero s) (Inf t) = NaN"
| "fmul (Inf s) (Inf t) = Inf (s \<noteq> t)"
| "fmul (Inf s) (Fin b) = Inf (s \<noteq> (b < 0))"
| "fmul (Fin a) (Inf t) = Inf ((a < 0) \<noteq> t)"
| "fmul (Zero s) (Zero t) = Zero (s \<noteq> t)"
| "fmul (Zero s) (Fin b) = Zero (s \<noteq> (b < 0))"
| "fmul (Fin a) (Zero t) = Zero ((a < 0) \<noteq> t)"
| "fmul (Fin a) (Fin b) = round32 (a * b)"

fun fdiv :: "float \<Rightarrow> float \<Rightarrow> float" where
  "fdiv NaN _ = NaN"
| "fdiv _ NaN = NaN"
| "fdiv (Inf s) (Inf t) = NaN"
| "fdiv (Inf s) (Zero t) = Inf (s \<noteq> t)"
| "fdiv (Inf s) (Fin b) = Inf (s \<noteq> (b < 0))"
| "fdiv (Zero s) (Zero t) = NaN"
| "fdiv (Zero s) (Inf t) = Zero (s \<noteq> t)"
| "fdiv (Zero s) (Fin b) = Zero (s \<noteq> (b < 0))"
| "fdiv (Fin a) (Inf t) = Zero ((a < 0) \<noteq> t)"
| "fdiv (Fin a) (Zero t) = Inf ((a < 0) \<noteq> t)"
| "fdiv (Fin a) (Fin b) = round32 (a / b)"

fun fne :: "float \<Rightarrow> float \<Rightarrow> bool" where
  "fne NaN _ = True"
| "fne _ NaN = True"
| "fne (Inf s) (Inf t) = (s \<noteq> t)"
| "fne (Zero s) (Zero t) = False"
| "fne (Fin a) (Fin b) = (a \<noteq> b)"
| "fne _ _ = True"

definition feq :: "float \<Rightarrow> float \<Rightarrow> bool" where
  "feq a b = (\<not> fne a b)"

subsection \<open>The node\<close>

text \<open>
  The kernel data the node reads: the node words (four unsigned integers each) and the stack
  of floats, a map from slots to floats.
\<close>

record uint4 =
  uint4_x :: uint
  uint4_y :: uint
  uint4_z :: uint
  uint4_w :: uint

record KernelGlobals =
  svm_nodes :: "int \<Rightarrow> uint4"

text \<open>
  Modelled from the spec: \<^verbatim>\<open>read_node\<close> is defined in \<^verbatim>\<open>svm.h\<close>, outside the excerpt. It
  fetches the four words at \<^verbatim>\<open>*offset\<close> and advances \<^verbatim>\<open>*offset\<close> by one.
\<close>

definition read_node :: "KernelGlobals \<Rightarrow> int \<Rightarrow> uint4 \<times> int" where
  "read_node kg offset = (svm_nodes kg offset, offset + 1)"

text \<open>
  Modelled from the spec: \<^verbatim>\<open>stack_load_float\<close> is defined in \<^verbatim>\<open>svm.h\<close>, outside the
  excerpt. The node is "pure, stateless, no side effects beyond writing one output slot": a
  load reads one slot of the stack.
\<close>

definition stack_load_float :: "(uint \<Rightarrow> float) \<Rightarrow> uint \<Rightarrow> float" where
  "stack_load_float stack a = stack a"

text \<open>
  Modelled from the spec: \<^verbatim>\<open>stack_store_float\<close> is defined in \<^verbatim>\<open>svm.h\<close>, outside the
  excerpt. A store writes one slot of the stack and no other.
\<close>

definition stack_store_float :: "(uint \<Rightarrow> float) \<Rightarrow> uint \<Rightarrow> float \<Rightarrow> (uint \<Rightarrow> float)" where
  "stack_store_float stack a f = stack(a := f)"

text \<open>The value of a finite float as a number (\<open>0\<close> for both zeros).\<close>

fun fval :: "float \<Rightarrow> rat" where
  "fval (Fin q) = q"
| "fval _ = 0"

text \<open>
  \<^verbatim>\<open>svm_node_map_range\<close>. The parameter \<^verbatim>\<open>sd\<close> is not used by the function and is left
  out; the function returns the new stack and the new offset.
\<close>

definition svm_node_map_range ::
  "KernelGlobals \<Rightarrow> (uint \<Rightarrow> float) \<Rightarrow> uint \<Rightarrow> uint \<Rightarrow> uint \<Rightarrow> int \<Rightarrow> (uint \<Rightarrow> float) \<times> int" where
  "svm_node_map_range kg stack value_offset fromMin_offset fromMax_offset offset =
     (let (node1, offset') = read_node kg offset;
          value = stack_load_float stack value_offset;
          fromMin = stack_load_float stack fromMin_offset;
          fromMax = stack_load_float stack fromMax_offset;
          toMin = stack_load_float stack (uint4_y node1);
          toMax = stack_load_float stack (uint4_z node1);
          r = (if fne fromMax fromMin \<and> fne toMax toMin
               then fadd toMin (fmul (fdiv (fsub value fromMin) (fsub fromMax fromMin))
                                     (fsub toMax toMin))
               else Zero False)
      in (stack_store_float stack (uint4_w node1) r, offset'))"

text \<open>
  Concrete inputs: every node word of the kernel is \<open>(0, 3, 4, 5)\<close>, so \<open>toMin\<close> is read
  from slot 3, \<open>toMax\<close> from slot 4 and the result goes to slot 5; the stack holds the five
  given floats in slots 0 to 4.
\<close>

definition map_range_kg :: KernelGlobals where
  "map_range_kg = \<lparr>svm_nodes = (\<lambda>_. \<lparr>uint4_x = 0, uint4_y = 3, uint4_z = 4, uint4_w = 5\<rparr>)\<rparr>"

definition map_range_stack ::
  "float \<Rightarrow> float \<Rightarrow> float \<Rightarrow> float \<Rightarrow> float \<Rightarrow> uint \<Rightarrow> float" where
  "map_range_stack v fmin fmax tmin tmax =
     (\<lambda>_. Zero False)(0 := v, 1 := fmin, 2 := fmax, 3 := tmin, 4 := tmax)"

subsection \<open>Notions used by the properties of the node\<close>

text \<open>
  \<open>map_range_exact\<close> is the interpolation as the spec words it, over the rational numbers.
  \<open>map_range_rounded\<close> is the same expression with each of its five operations rounded to
  the nearest float. \<open>no_overflow\<close> says that none of these rounded results leaves the
  range of the finite floats, \<open>no_rounding\<close> that every operation of the exact expression
  yields a float. A \<open>finite_float\<close> is a zero or a finite value that is a float.
\<close>

definition map_range_exact :: "rat \<Rightarrow> rat \<Rightarrow> rat \<Rightarrow> rat \<Rightarrow> rat \<Rightarrow> rat" where
  "map_range_exact v a b c d = c + ((v - a) / (b - a)) * (d - c)"

definition map_range_rounded :: "rat \<Rightarrow> rat \<Rightarrow> rat \<Rightarrow> rat \<Rightarrow> rat \<Rightarrow> rat" where
  "map_range_rounded v a b c d =
     rne (c + rne (rne (rne (v - a) / rne (b - a)) * rne (d - c)))"

definition no_overflow :: "rat \<Rightarrow> rat \<Rightarrow> rat \<Rightarrow> rat \<Rightarrow> rat \<Rightarrow> bool" where
  "no_overflow v a b c d =
     (\<bar>rne (v - a)\<bar> < 2 ^ 128 \<and> \<bar>rne (b - a)\<bar> < 2 ^ 128
      \<and> \<bar>rne (rne (v - a) / rne (b - a))\<bar> < 2 ^ 128
      \<and> \<bar>rne (d - c)\<bar> < 2 ^ 128
      \<and> \<bar>rne (rne (rne (v - a) / rne (b - a)) * rne (d - c))\<bar> < 2 ^ 128
      \<and> \<bar>map_range_rounded v a b c d\<bar> < 2 ^ 128)"

definition no_rounding :: "rat \<Rightarrow> rat \<Rightarrow> rat \<Rightarrow> rat \<Rightarrow> rat \<Rightarrow> bool" where
  "no_rounding v a b c d =
     (rne (v - a) = v - a \<and> rne (b - a) = b - a
      \<and> rne ((v - a) / (b - a)) = (v - a) / (b - a)
      \<and> rne (d - c) = d - c
      \<and> rne ((v - a) / (b - a) * (d - c)) = (v - a) / (b - a) * (d - c)
      \<and> rne (c + (v - a) / (b - a) * (d - c)) = c + (v - a) / (b - a) * (d - c))"

definition finite_float :: "float \<Rightarrow> bool" where
  "finite_float x = (valid x \<and> is_finite x)"

section \<open>rna\_palette.c: palette reflection callbacks\<close>

text \<open>
  A palette owns an ordered list of colors (\<^verbatim>\<open>ListBase colors\<close>); each color is a list node at
  an address of its own, which is how the list functions find it. Of a color only its name
  (\<^verbatim>\<open>info\<close>) is kept: the callbacks below read and write no other field. A \<^verbatim>\<open>PointerRNA\<close> is
  the reference the scripting layer holds: the owning ID, the struct type and the data
  pointer. Pointers are addresses, \<^verbatim>\<open>NULL\<close> is \<open>None\<close>.
\<close>

type_synonym ptr = nat

datatype crash = NullDereference

record PaletteColor =
  info :: string

record Palette =
  id_name :: string
  colors :: "(ptr \<times> PaletteColor) list"
  active_color :: int

record PointerRNA =
  id_data :: "ptr option"
  rna_type :: "string option"
  data :: "ptr option"

datatype ReportType = RPT_INFO | RPT_WARNING | RPT_ERROR

type_synonym ReportList = "(ReportType \<times> string) list"

text \<open>
  Modelled from the spec: \<^verbatim>\<open>BLI_findindex\<close> is a function of the list library, outside the
  excerpt; references into a palette are "resolved by linear list lookup". It walks the list
  and gives the position of the node, \<open>-1\<close> when the list does not hold it.
\<close>

fun findindex_from :: "(ptr \<times> 'a) list \<Rightarrow> ptr \<Rightarrow> int \<Rightarrow> int" where
  "findindex_from [] vlink number = -1"
| "findindex_from (link # rest) vlink number =
     (if fst link = vlink then number else findindex_from rest vlink (number + 1))"

definition BLI_findindex :: "(ptr \<times> 'a) list \<Rightarrow> ptr option \<Rightarrow> int" where
  "BLI_findindex listbase vlink =
     (case vlink of None \<Rightarrow> -1 | Some a \<Rightarrow> findindex_from listbase a 0)"

text \<open>
  Modelled from the spec: \<^verbatim>\<open>BLI_findlink\<close> is a function of the list library, outside the
  excerpt. It gives the node at a position, \<^verbatim>\<open>NULL\<close> outside the list.
\<close>

definition BLI_findlink :: "(ptr \<times> 'a) list \<Rightarrow> int \<Rightarrow> (ptr \<times> 'a) option" where
  "BLI_findlink listbase number =
     (if 0 \<le> number \<and> number < int (length listbase) then Some (listbase ! nat number)
      else None)"

text \<open>
  Modelled from the spec: \<^verbatim>\<open>BKE_reportf\<close> is a function of the report module, outside the
  excerpt. Errors are reported "through a host report list": it appends a report.
\<close>

definition BKE_reportf :: "ReportList \<Rightarrow> ReportType \<Rightarrow> string \<Rightarrow> ReportList" where
  "BKE_reportf reports type message = reports @ [(type, message)]"

text \<open>
  Modelled from the spec: \<^verbatim>\<open>BKE_palette_color_remove\<close> is a function of the paint module,
  outside the excerpt. The spec has "collection-style add/remove/clear operations with
  \<dots> reference invalidation on removal": the color leaves the list of the palette.
\<close>

definition BKE_palette_color_remove :: "Palette \<Rightarrow> ptr \<Rightarrow> Palette" where
  "BKE_palette_color_remove palette color =
     palette\<lparr>colors := filter (\<lambda>link. fst link \<noteq> color) (colors palette)\<rparr>"

text \<open>
  Modelled from the spec: \<^verbatim>\<open>RNA_POINTER_INVALIDATE\<close> is a macro of \<^verbatim>\<open>RNA_access.h\<close>,
  outside the excerpt; "reference invalidation" clears the type and the owner of the
  reference.
\<close>

definition RNA_POINTER_INVALIDATE :: "PointerRNA \<Rightarrow> PointerRNA" where
  "RNA_POINTER_INVALIDATE p = p\<lparr>rna_type := None, id_data := None\<rparr>"

text \<open>
  \<^verbatim>\<open>rna_Palette_color_remove\<close>. The message is
  \<^verbatim>\<open>Palette '%s' does not contain color given\<close> with the name of the palette after its
  two-letter ID code.
\<close>

definition not_contained_message :: "Palette \<Rightarrow> string" where
  "not_contained_message palette =
     ''Palette '' @ [CHR 0x27] @ drop 2 (id_name palette) @ [CHR 0x27]
       @ '' does not contain color given''"

definition rna_Palette_color_remove ::
  "Palette \<Rightarrow> ReportList \<Rightarrow> PointerRNA \<Rightarrow> Palette \<times> ReportList \<times> PointerRNA" where
  "rna_Palette_color_remove palette reports color_ptr =
     (let color = data color_ptr in
      if BLI_findindex (colors palette) color = -1
      then (palette, BKE_reportf reports RPT_ERROR (not_contained_message palette), color_ptr)
      else (BKE_palette_color_remove palette (the color), reports,
            RNA_POINTER_INVALIDATE color_ptr))"

text \<open>
  \<^verbatim>\<open>rna_PaletteColor_info_set\<close>, the setter of the property \<^verbatim>\<open>name\<close> of a color.
  \<^verbatim>\<open>BLI_strncpy_utf8\<close> and \<^verbatim>\<open>BLI_uniquename\<close> are string helpers outside the excerpt and
  are parameters here: the copy of a string into a buffer of a given size, and the name made
  unique among the other names of the list (default name, delimiter and size as passed).
  The color renamed is the one \<^verbatim>\<open>BLI_findlink\<close> finds at \<^verbatim>\<open>palette->active_color\<close>; the code
  writes through that pointer without a test. The two calls after the renaming
  (\<^verbatim>\<open>BKE_gpencil_palettecolor_allnames\<close>, \<^verbatim>\<open>BKE_animdata_fix_paths_rename_all\<close>) update
  references in other data blocks and leave the palette as it is.
\<close>

record string_api =
  strncpy_utf8 :: "nat \<Rightarrow> string \<Rightarrow> string"
  uniquename :: "string list \<Rightarrow> string \<Rightarrow> char \<Rightarrow> nat \<Rightarrow> string \<Rightarrow> string"

definition rna_PaletteColor_info_set ::
  "string_api \<Rightarrow> Palette \<Rightarrow> PointerRNA \<Rightarrow> string \<Rightarrow> crash + Palette" where
  "rna_PaletteColor_info_set api palette p value =
     (case BLI_findlink (colors palette) (active_color palette) of
        None \<Rightarrow> Inl NullDereference
      | Some (addr, palcolor) \<Rightarrow>
          (let copied = strncpy_utf8 api 64 value;
               others = map (info \<circ> snd) (filter (\<lambda>link. fst link \<noteq> addr) (colors palette));
               unique = uniquename api others ''Color'' CHR ''.'' 64 copied
           in Inr (palette\<lparr>colors :=
                     map (\<lambda>link. if fst link = addr then (addr, (snd link)\<lparr>info := unique\<rparr>) else link)
                       (colors palette)\<rparr>)))"

text \<open>
  Concrete inputs: a palette of two colors, the first one active, and a reference to the
  color at a given address.
\<close>

definition two_colors :: Palette where
  "two_colors = \<lparr>id_name = ''PLPalette'',
                  colors = [(10, \<lparr>info = ''Red''\<rparr>), (11, \<lparr>info = ''Blue''\<rparr>)],
                  active_color = 0\<rparr>"

definition color_ref :: "ptr \<Rightarrow> PointerRNA" where
  "color_ref a = \<lparr>id_data = Some 1, rna_type = Some ''PaletteColor'', data = Some a\<rparr>"

section \<open>lanpr\_ops.c: grease-pencil operators of the line renderer\<close>

text \<open>
  The data the operators read. An object is known by its address; a feature-line modifier
  and a collection name a grease-pencil target object, a layer index, a level range, a
  material and a bitmask of line types. The enumerations of the DNA headers are outside the
  excerpt; the code only tests equality with \<^verbatim>\<open>OB_GPENCIL\<close>,
  \<^verbatim>\<open>eModifierType_FeatureLine\<close>, \<^verbatim>\<open>LANPR_MASTER_MODE_SOFTWARE\<close> and
  \<^verbatim>\<open>COLLECTION_LANPR_INCLUDE\<close>, so one further value stands for all the others.
\<close>

datatype ob_type = OB_MESH | OB_GPENCIL | OB_OTHER

datatype master_mode = LANPR_MASTER_MODE_SOFTWARE | LANPR_MASTER_MODE_DPIX

datatype collection_usage = COLLECTION_LANPR_INCLUDE | COLLECTION_LANPR_OTHER

datatype Object =
  Object (ob_addr: ptr) (ob_type: ob_type) (ob_data: ptr) (modifiers: "ModifierData list")
and ModifierData =
  FeatureLineModifier (flmd_target: "Object option") (flmd_layer: int)
    (flmd_level_begin: int) (flmd_level_end: int) (flmd_use_multiple_levels: bool)
    (flmd_material: int) (flmd_types: uint)
| OtherModifier

record CollectionLANPR =
  lanpr_usage :: collection_usage
  lanpr_target :: "Object option"
  lanpr_layer :: int
  lanpr_level_begin :: int
  lanpr_level_end :: int
  lanpr_use_multiple_levels :: bool
  lanpr_material :: int
  lanpr_types :: uint

datatype Collection =
  Collection (gobject: "Object list") (children: "Collection list") (lanpr: CollectionLANPR)

record Scene =
  cfra :: int
  sfra :: int
  efra :: int
  master_mode :: master_mode
  master_collection :: Collection

text \<open>
  The shared render buffer: the frame it was computed for, its chains and, through
  \<^verbatim>\<open>rb->scene->lanpr\<close>, the overwrite option. Of the object a chain belongs to, the code uses
  whether there is one and the address of its original (\<^verbatim>\<open>object_ref->id.orig_id\<close>).
\<close>

record LANPR_RenderLineChainItem =
  gpos :: "float \<times> float \<times> float"

record LANPR_RenderLineChain =
  picked :: bool
  object_ref :: "ptr option"
  chain_type :: uint
  level :: int
  chain :: "LANPR_RenderLineChainItem list"

record LANPR_RenderBuffer =
  cached_for_frame :: int
  chains :: "LANPR_RenderLineChain list"
  gpencil_overwrite :: bool

text \<open>
  The calls of interest are logged, the most recent event first: the feature-line
  computation, the clearing of the picked flags, the assignment \<open>picked = 1\<close> to the chain at
  a position of the chain list, the stroke added for it, the update tag and the notifier.
\<close>

datatype event =
  ComputeFeatureLines
| ClearPickedFlag
| SetPicked nat
| AddStroke nat
| TagUpdate ptr
| AddNotifier

text \<open>
  Collaborators outside the excerpt, taken as parameters: the feature-line engine
  (\<open>compute_buffer\<close> is what \<^verbatim>\<open>lanpr_compute_feature_lines_internal\<close> leaves in
  \<^verbatim>\<open>lanpr_share.render_buffer_shared\<close>, given the evaluated scene and the buffer found
  there), the dependency graph, the collection query, the chain counter and the
  grease-pencil store, whose state has the abstract type \<open>'g\<close>. Layers, frames and strokes
  are addressed by pointers; \<open>gpf_strokes_first\<close> is \<^verbatim>\<open>gpf->strokes.first != NULL\<close> and
  \<open>gpf_flag_lanpr_cleared\<close> is the bit \<^verbatim>\<open>GP_FRAME_LANPR_CLEARED\<close> of \<^verbatim>\<open>gpf->flag\<close>.
\<close>

record 'g host =
  compute_buffer :: "Scene \<Rightarrow> LANPR_RenderBuffer option \<Rightarrow> LANPR_RenderBuffer option"
  DEG_evaluate_on_framechange :: "Scene \<Rightarrow> int \<Rightarrow> Scene"
  BKE_collection_has_object_recursive :: "Collection \<Rightarrow> ptr \<Rightarrow> bool"
  lanpr_count_chain :: "LANPR_RenderLineChain \<Rightarrow> int"
  BKE_gpencil_layer_get_index :: "'g \<Rightarrow> ptr \<Rightarrow> int \<Rightarrow> ptr option"
  BKE_gpencil_layer_addnew :: "'g \<Rightarrow> ptr \<Rightarrow> 'g \<times> ptr"
  BKE_gpencil_layer_getframe :: "'g \<Rightarrow> ptr \<Rightarrow> int \<Rightarrow> 'g \<times> ptr"
  BKE_gpencil_layer_find_frame :: "'g \<Rightarrow> ptr \<Rightarrow> int \<Rightarrow> ptr option"
  BKE_gpencil_free_strokes :: "'g \<Rightarrow> ptr \<Rightarrow> 'g"
  BKE_gpencil_add_stroke :: "'g \<Rightarrow> ptr \<Rightarrow> int \<Rightarrow> int \<Rightarrow> int \<Rightarrow> 'g \<times> ptr"
  BKE_gpencil_stroke_add_points :: "'g \<Rightarrow> ptr \<Rightarrow> float list \<Rightarrow> int \<Rightarrow> 'g"
  gpd_layers :: "'g \<Rightarrow> ptr \<Rightarrow> ptr list"
  gpf_strokes_first :: "'g \<Rightarrow> ptr \<Rightarrow> bool"
  gpf_flag_lanpr_cleared :: "'g \<Rightarrow> ptr \<Rightarrow> bool"
  gpf_set_flag_lanpr_cleared :: "'g \<Rightarrow> ptr \<Rightarrow> bool \<Rightarrow> 'g"
  gps_set_mat_nr :: "'g \<Rightarrow> ptr \<Rightarrow> int \<Rightarrow> 'g"

text \<open>
  The state: the global handle \<^verbatim>\<open>lanpr_share.render_buffer_shared\<close>, the grease-pencil data,
  the scene of the context and the evaluated scene of the dependency graph, the active
  object, the evaluated objects, and the log.
\<close>

record 'g world =
  render_buffer_shared :: "LANPR_RenderBuffer option"
  gpencil :: 'g
  ctx_scene :: Scene
  eval_scene :: Scene
  ctx_active_object :: "Object option"
  deg_objects :: "Object list"
  events :: "event list"

text \<open>
  A run ends normally (\<^verbatim>\<open>OPERATOR_FINISHED\<close>) or crashes on a \<^verbatim>\<open>NULL\<close> dereference; either way
  the state it reached is kept.
\<close>

datatype 'a outcome = Finished 'a | Crashed 'a

fun final :: "'a outcome \<Rightarrow> 'a" where
  "final (Finished w) = w"
| "final (Crashed w) = w"

fun then_do :: "'a outcome \<Rightarrow> ('a \<Rightarrow> 'a outcome) \<Rightarrow> 'a outcome" where
  "then_do (Finished w) f = f w"
| "then_do (Crashed w) f = Crashed w"

text \<open>
  The call of the engine, which is only declared in the excerpt: the host says what it leaves
  in the shared handle. Every caller ignores its status result.
\<close>

definition lanpr_compute_feature_lines_internal :: "'g host \<Rightarrow> 'g world \<Rightarrow> 'g world" where
  "lanpr_compute_feature_lines_internal h w =
     w\<lparr>render_buffer_shared := compute_buffer h (eval_scene w) (render_buffer_shared w),
       events := ComputeFeatureLines # events w\<rparr>"

text \<open>
  Modelled from the spec: \<^verbatim>\<open>lanpr_chain_clear_picked_flag\<close> is only declared in the excerpt.
  "Before emitting strokes, clear every chain's one-shot picked marker"; without a buffer
  there is nothing to clear.
\<close>

definition lanpr_chain_clear_picked_flag :: "'g world \<Rightarrow> 'g world" where
  "lanpr_chain_clear_picked_flag w =
     w\<lparr>render_buffer_shared :=
         map_option (\<lambda>rb. rb\<lparr>chains := map (\<lambda>rlc. rlc\<lparr>picked := False\<rparr>) (chains rb)\<rparr>)
           (render_buffer_shared w),
       events := ClearPickedFlag # events w\<rparr>"

text \<open>\<^verbatim>\<open>ED_lanpr_update_data_for_external\<close>, the entry point for other modules.\<close>

definition ED_lanpr_update_data_for_external :: "'g host \<Rightarrow> 'g world \<Rightarrow> 'g world" where
  "ED_lanpr_update_data_for_external h w =
     (let scene = eval_scene w in
      if master_mode scene \<noteq> LANPR_MASTER_MODE_SOFTWARE then w
      else if (case render_buffer_shared w of None \<Rightarrow> True
               | Some rb \<Rightarrow> cached_for_frame rb \<noteq> cfra scene)
      then lanpr_compute_feature_lines_internal h w
      else w)"

text \<open>
  \<^verbatim>\<open>lanpr_generate_gpencil_from_chain\<close>. The loop body rejects a chain by one of six
  \<^verbatim>\<open>continue\<close> statements; the verdict names the first one taken, in the order of the code.
\<close>

datatype verdict =
  SkipPicked | SkipNoObject | SkipType | SkipLevel | SkipOtherObject | SkipNotInCollection | Emit

definition chain_verdict ::
  "'g host \<Rightarrow> Object option \<Rightarrow> int \<Rightarrow> int \<Rightarrow> Collection option \<Rightarrow> uint
     \<Rightarrow> LANPR_RenderLineChain \<Rightarrow> verdict" where
  "chain_verdict h ob qi_begin qi_end col types rlc =
     (if picked rlc then SkipPicked
      else if ob \<noteq> None \<and> object_ref rlc = None then SkipNoObject
      else if chain_type rlc AND types = 0 then SkipType
      else if level rlc > qi_end \<or> level rlc < qi_begin then SkipLevel
      else if ob \<noteq> None \<and> Some (ob_addr (the ob)) \<noteq> object_ref rlc then SkipOtherObject
      else if col \<noteq> None \<and> object_ref rlc \<noteq> None
              \<and> \<not> BKE_collection_has_object_recursive h (the col) (the (object_ref rlc))
           then SkipNotInCollection
      else Emit)"

text \<open>
  The loop over \<^verbatim>\<open>rb->chains\<close>, with the position of the current chain. An accepted chain is
  marked, a stroke is added for it, its points are copied (position, thickness 1, opacity
  1) and the material is set. The parameter \<^verbatim>\<open>gpl\<close> is not used by the function.
\<close>

definition stroke_point :: "LANPR_RenderLineChainItem \<Rightarrow> float list" where
  "stroke_point rlci =
     (case gpos rlci of (g0, g1, g2) \<Rightarrow> [g0, g1, g2, Fin 1, Fin 1])"

fun generate_loop ::
  "'g host \<Rightarrow> Object option \<Rightarrow> ptr \<Rightarrow> int \<Rightarrow> int \<Rightarrow> int \<Rightarrow> Collection option \<Rightarrow> uint
     \<Rightarrow> nat \<Rightarrow> LANPR_RenderLineChain list \<Rightarrow> 'g \<Rightarrow> event list
     \<Rightarrow> LANPR_RenderLineChain list \<times> 'g \<times> event list" where
  "generate_loop h ob gpf qi_begin qi_end material_nr col types i [] g t = ([], g, t)"
| "generate_loop h ob gpf qi_begin qi_end material_nr col types i (rlc # rest) g t =
     (if chain_verdict h ob qi_begin qi_end col types rlc \<noteq> Emit
      then (case generate_loop h ob gpf qi_begin qi_end material_nr col types (i + 1) rest g t of
              (rest', g', t') \<Rightarrow> (rlc # rest', g', t'))
      else
        (let rlc' = rlc\<lparr>picked := True\<rparr>;
             count = lanpr_count_chain h rlc';
             (g1, gps) = BKE_gpencil_add_stroke h g gpf 0 count 1;
             stroke_data = concat (map stroke_point (chain rlc'));
             g2 = BKE_gpencil_stroke_add_points h g1 gps stroke_data count;
             g3 = gps_set_mat_nr h g2 gps material_nr
         in case generate_loop h ob gpf qi_begin qi_end material_nr col types (i + 1) rest g3
                   (AddStroke i # SetPicked i # t) of
              (rest', g', t') \<Rightarrow> (rlc' # rest', g', t')))"

definition lanpr_generate_gpencil_from_chain ::
  "'g host \<Rightarrow> 'g world \<Rightarrow> Object option \<Rightarrow> ptr \<Rightarrow> ptr \<Rightarrow> int \<Rightarrow> int \<Rightarrow> int
     \<Rightarrow> Collection option \<Rightarrow> uint \<Rightarrow> 'g world" where
  "lanpr_generate_gpencil_from_chain h w ob gpl gpf qi_begin qi_end material_nr col types =
     (case render_buffer_shared w of
        None \<Rightarrow> w
      | Some rb \<Rightarrow>
          if master_mode (eval_scene w) \<noteq> LANPR_MASTER_MODE_SOFTWARE then w
          else (case generate_loop h ob gpf qi_begin qi_end material_nr col types 0
                       (chains rb) (gpencil w) (events w) of
                  (cs, g, t) \<Rightarrow>
                    w\<lparr>render_buffer_shared := Some (rb\<lparr>chains := cs\<rparr>),
                      gpencil := g, events := t\<rparr>))"

text \<open>
  \<^verbatim>\<open>lanpr_clear_gp_lanpr_flags\<close>: for every evaluated grease-pencil object and every layer
  of it, the frame found at the given number loses its "cleared" bit.
\<close>

fun clear_layer_flags :: "'g host \<Rightarrow> int \<Rightarrow> ptr list \<Rightarrow> 'g \<Rightarrow> 'g" where
  "clear_layer_flags h frame [] g = g"
| "clear_layer_flags h frame (gpl # rest) g =
     (case BKE_gpencil_layer_find_frame h g gpl frame of
        None \<Rightarrow> clear_layer_flags h frame rest g
      | Some gpf \<Rightarrow> clear_layer_flags h frame rest (gpf_set_flag_lanpr_cleared h g gpf False))"

fun clear_object_flags :: "'g host \<Rightarrow> int \<Rightarrow> Object list \<Rightarrow> 'g \<Rightarrow> 'g" where
  "clear_object_flags h frame [] g = g"
| "clear_object_flags h frame (ob # rest) g =
     (if ob_type ob = OB_GPENCIL
      then clear_object_flags h frame rest
             (clear_layer_flags h frame (gpd_layers h g (ob_data ob)) g)
      else clear_object_flags h frame rest g)"

definition lanpr_clear_gp_lanpr_flags :: "'g host \<Rightarrow> 'g world \<Rightarrow> int \<Rightarrow> 'g world" where
  "lanpr_clear_gp_lanpr_flags h w frame =
     w\<lparr>gpencil := clear_object_flags h frame (deg_objects w) (gpencil w)\<rparr>"

text \<open>
  The shared tail of both passes, from the layer lookup to the tag: find or create the layer
  and the frame; leave a frame that has strokes alone unless overwriting is allowed (this
  reads the scene of the shared buffer, so a \<^verbatim>\<open>NULL\<close> buffer crashes here); free the strokes
  of the frame once per update; emit; tag the grease-pencil data.
\<close>

definition emit_to_target ::
  "'g host \<Rightarrow> 'g world \<Rightarrow> int \<Rightarrow> Object \<Rightarrow> int \<Rightarrow> Object option \<Rightarrow> int \<Rightarrow> int \<Rightarrow> int
     \<Rightarrow> Collection option \<Rightarrow> uint \<Rightarrow> 'g world outcome" where
  "emit_to_target h w frame gpobj layer ob qi_begin qi_end material_nr col types =
     (let gpd = ob_data gpobj;
          (g1, gpl) = (case BKE_gpencil_layer_get_index h (gpencil w) gpd layer of
                         Some gpl \<Rightarrow> (gpencil w, gpl)
                       | None \<Rightarrow> BKE_gpencil_layer_addnew h (gpencil w) gpd);
          (g2, gpf) = BKE_gpencil_layer_getframe h g1 gpl frame;
          w2 = w\<lparr>gpencil := g2\<rparr>
      in if gpf_strokes_first h g2 gpf \<and> render_buffer_shared w2 = None then Crashed w2
         else if gpf_strokes_first h g2 gpf
                 \<and> \<not> gpencil_overwrite (the (render_buffer_shared w2)) then Finished w2
         else
           (let w3 = (if \<not> gpf_flag_lanpr_cleared h g2 gpf
                      then w2\<lparr>gpencil := gpf_set_flag_lanpr_cleared h
                                            (BKE_gpencil_free_strokes h g2 gpf) gpf True\<rparr>
                      else w2);
                w4 = lanpr_generate_gpencil_from_chain h w3 ob gpl gpf qi_begin qi_end
                       material_nr col types
            in Finished (w4\<lparr>events := TagUpdate gpd # events w4\<rparr>)))"

text \<open>
  \<^verbatim>\<open>lanpr_update_gp_strokes_recursive\<close>: the loop over the modifiers of an object, the loop
  over the objects of a collection, then the children. With \<^verbatim>\<open>source_only\<close> the object loop
  runs once, for that object, and returns before the children.
\<close>

fun update_modifiers ::
  "'g host \<Rightarrow> int \<Rightarrow> Object option \<Rightarrow> Object \<Rightarrow> ModifierData list \<Rightarrow> 'g world
     \<Rightarrow> 'g world outcome" where
  "update_modifiers h frame target_only ob [] w = Finished w"
| "update_modifiers h frame target_only ob (md # rest) w =
     (case md of
        OtherModifier \<Rightarrow> update_modifiers h frame target_only ob rest w
      | FeatureLineModifier target layer level_begin level_end use_multiple_levels material types \<Rightarrow>
          (case target of
             None \<Rightarrow> update_modifiers h frame target_only ob rest w
           | Some gpobj \<Rightarrow>
               if ob_type gpobj \<noteq> OB_GPENCIL then update_modifiers h frame target_only ob rest w
               else if target_only \<noteq> None \<and> ob_addr (the target_only) \<noteq> ob_addr gpobj
               then update_modifiers h frame target_only ob rest w
               else then_do
                      (emit_to_target h w frame gpobj layer (Some ob) level_begin
                         (if use_multiple_levels then level_end else level_begin)
                         material None types)
                      (update_modifiers h frame target_only ob rest)))"

fun update_objects ::
  "'g host \<Rightarrow> int \<Rightarrow> Object option \<Rightarrow> Object list \<Rightarrow> 'g world \<Rightarrow> 'g world outcome" where
  "update_objects h frame target_only [] w = Finished w"
| "update_objects h frame target_only (ob # rest) w =
     then_do (update_modifiers h frame target_only ob (modifiers ob) w)
       (update_objects h frame target_only rest)"

fun lanpr_update_gp_strokes_recursive ::
  "'g host \<Rightarrow> Collection \<Rightarrow> int \<Rightarrow> Object option \<Rightarrow> Object option \<Rightarrow> 'g world
     \<Rightarrow> 'g world outcome"
and update_children_recursive ::
  "'g host \<Rightarrow> Collection list \<Rightarrow> int \<Rightarrow> Object option \<Rightarrow> Object option \<Rightarrow> 'g world
     \<Rightarrow> 'g world outcome" where
  "lanpr_update_gp_strokes_recursive h (Collection col_gobject col_children col_lanpr) frame source_only
       target_only w =
     (case source_only of
        Some ob \<Rightarrow> update_modifiers h frame target_only ob (modifiers ob) w
      | None \<Rightarrow>
          then_do (update_objects h frame target_only col_gobject w)
            (update_children_recursive h col_children frame source_only target_only))"
| "update_children_recursive h [] frame source_only target_only w = Finished w"
| "update_children_recursive h (cc # rest) frame source_only target_only w =
     then_do (lanpr_update_gp_strokes_recursive h cc frame source_only target_only w)
       (update_children_recursive h rest frame source_only target_only)"

text \<open>
  \<^verbatim>\<open>lanpr_update_gp_strokes_collection\<close>: children first, then the collection itself.
\<close>

fun lanpr_update_gp_strokes_collection ::
  "'g host \<Rightarrow> Collection \<Rightarrow> int \<Rightarrow> bool \<Rightarrow> Object option \<Rightarrow> 'g world \<Rightarrow> 'g world outcome"
and update_children_collection ::
  "'g host \<Rightarrow> Collection list \<Rightarrow> int \<Rightarrow> bool \<Rightarrow> Object option \<Rightarrow> 'g world \<Rightarrow> 'g world outcome"
where
  "lanpr_update_gp_strokes_collection h (Collection col_gobject col_children col_lanpr) frame this_only
       target_only w =
     then_do
       (if \<not> this_only then update_children_collection h col_children frame this_only target_only w
        else Finished w)
       (\<lambda>w1.
          if lanpr_usage col_lanpr \<noteq> COLLECTION_LANPR_INCLUDE \<or> lanpr_target col_lanpr = None
          then Finished w1
          else
            (let gpobj = the (lanpr_target col_lanpr) in
             if target_only \<noteq> None \<and> ob_addr (the target_only) \<noteq> ob_addr gpobj
             then Finished w1
             else emit_to_target h w1 frame gpobj (lanpr_layer col_lanpr) None
                    (lanpr_level_begin col_lanpr)
                    (if lanpr_use_multiple_levels col_lanpr then lanpr_level_end col_lanpr
                     else lanpr_level_begin col_lanpr)
                    (lanpr_material col_lanpr) (Some (Collection col_gobject col_children col_lanpr))
                    (lanpr_types col_lanpr)))"
| "update_children_collection h [] frame this_only target_only w = Finished w"
| "update_children_collection h (cc # rest) frame this_only target_only w =
     then_do (lanpr_update_gp_strokes_collection h cc frame this_only target_only w)
       (update_children_collection h rest frame this_only target_only)"

text \<open>
  The operators. The three single-frame operators differ in the object filters they pass
  on; the bake operator runs the frames from \<^verbatim>\<open>sfra\<close> to \<^verbatim>\<open>efra\<close> (as integers: the overflow of
  \<^verbatim>\<open>frame++\<close> at \<^verbatim>\<open>INT_MAX\<close> is not modelled).
\<close>

definition add_notifier :: "'g world \<Rightarrow> 'g world" where
  "add_notifier w = w\<lparr>events := AddNotifier # events w\<rparr>"

definition lanpr_update_gp_strokes_exec :: "'g host \<Rightarrow> 'g world \<Rightarrow> 'g world outcome" where
  "lanpr_update_gp_strokes_exec h w =
     (let scene = ctx_scene w;
          frame = cfra scene;
          w1 = (if (case render_buffer_shared w of None \<Rightarrow> True
                    | Some rb \<Rightarrow> cached_for_frame rb \<noteq> frame)
                then lanpr_compute_feature_lines_internal h w else w);
          w2 = lanpr_chain_clear_picked_flag w1
      in then_do
           (lanpr_update_gp_strokes_recursive h (master_collection scene) frame None None w2)
           (\<lambda>w3. then_do
              (lanpr_update_gp_strokes_collection h (master_collection scene) frame False None w3)
              (\<lambda>w4. Finished (add_notifier (lanpr_clear_gp_lanpr_flags h w4 frame)))))"

function lanpr_bake_frames ::
  "'g host \<Rightarrow> int \<Rightarrow> int \<Rightarrow> 'g world \<Rightarrow> 'g world outcome" where
  "lanpr_bake_frames h frame frame_end w =
     (if frame \<le> frame_end
      then
        (let scene = ctx_scene w;
             w0 = w\<lparr>eval_scene := DEG_evaluate_on_framechange h (eval_scene w) frame\<rparr>;
             w1 = lanpr_compute_feature_lines_internal h w0;
             w2 = lanpr_chain_clear_picked_flag w1
         in then_do
              (lanpr_update_gp_strokes_recursive h (master_collection scene) frame None None w2)
              (\<lambda>w3. then_do
                 (lanpr_update_gp_strokes_collection h (master_collection scene) frame False
                    None w3)
                 (\<lambda>w4. lanpr_bake_frames h (frame + 1) frame_end w4)))
      else Finished w)"
  by pat_completeness auto
termination
  by (relation "measure (\<lambda>(h, frame, frame_end, w). nat (frame_end + 1 - frame))") auto

declare lanpr_bake_frames.simps [simp del]

definition lanpr_bake_gp_strokes_exec :: "'g host \<Rightarrow> 'g world \<Rightarrow> 'g world outcome" where
  "lanpr_bake_gp_strokes_exec h w =
     (let scene = ctx_scene w;
          frame_begin = sfra scene;
          frame_end = efra scene
      in then_do (lanpr_bake_frames h frame_begin frame_end w)
           (\<lambda>w'. Finished (add_notifier w')))"

definition lanpr_update_gp_target_exec :: "'g host \<Rightarrow> 'g world \<Rightarrow> 'g world outcome" where
  "lanpr_update_gp_target_exec h w =
     (let scene = ctx_scene w;
          gpo = ctx_active_object w;
          frame = cfra scene;
          w1 = (if (case render_buffer_shared w of None \<Rightarrow> True
                    | Some rb \<Rightarrow> cached_for_frame rb \<noteq> frame)
                then lanpr_compute_feature_lines_internal h w else w);
          w2 = lanpr_chain_clear_picked_flag w1
      in then_do
           (lanpr_update_gp_strokes_recursive h (master_collection scene) frame None gpo w2)
           (\<lambda>w3. then_do
              (lanpr_update_gp_strokes_collection h (master_collection scene) frame False gpo w3)
              (\<lambda>w4. Finished (add_notifier (lanpr_clear_gp_lanpr_flags h w4 frame)))))"

definition lanpr_update_gp_source_exec :: "'g host \<Rightarrow> 'g world \<Rightarrow> 'g world outcome" where
  "lanpr_update_gp_source_exec h w =
     (let scene = ctx_scene w;
          source_obj = ctx_active_object w;
          frame = cfra scene;
          w1 = (if (case render_buffer_shared w of None \<Rightarrow> True
                    | Some rb \<Rightarrow> cached_for_frame rb \<noteq> frame)
                then lanpr_compute_feature_lines_internal h w else w);
          w2 = lanpr_chain_clear_picked_flag w1
      in then_do
           (lanpr_update_gp_strokes_recursive h (master_collection scene) frame source_obj
              None w2)
           (\<lambda>w3. then_do
              (lanpr_update_gp_strokes_collection h (master_collection scene) frame False None w3)
              (\<lambda>w4. Finished (add_notifier (lanpr_clear_gp_lanpr_flags h w4 frame)))))"

text \<open>
  Reading the log. \<open>compute_calls\<close> counts the computations, \<open>emitted\<close> lists the chains
  that got a stroke, \<open>since_clear\<close> those since the flags were last cleared.
  \<open>cleared_before_emit\<close>: whenever a stroke is added, the flags have been cleared since the
  last computation. \<open>picked_before_stroke\<close>: the event just before a stroke is the marking
  of the same chain. \<open>emitted_once\<close>: no chain gets a second stroke before the flags are
  cleared again.
\<close>

fun compute_calls :: "event list \<Rightarrow> nat" where
  "compute_calls [] = 0"
| "compute_calls (ComputeFeatureLines # t) = Suc (compute_calls t)"
| "compute_calls (e # t) = compute_calls t"

fun emitted :: "event list \<Rightarrow> nat list" where
  "emitted [] = []"
| "emitted (AddStroke i # t) = i # emitted t"
| "emitted (e # t) = emitted t"

fun since_clear :: "event list \<Rightarrow> nat list" where
  "since_clear [] = []"
| "since_clear (ClearPickedFlag # t) = []"
| "since_clear (AddStroke i # t) = i # since_clear t"
| "since_clear (e # t) = since_clear t"

fun flags_cleared :: "event list \<Rightarrow> bool" where
  "flags_cleared [] = False"
| "flags_cleared (ClearPickedFlag # t) = True"
| "flags_cleared (ComputeFeatureLines # t) = False"
| "flags_cleared (e # t) = flags_cleared t"

fun cleared_before_emit :: "event list \<Rightarrow> bool" where
  "cleared_before_emit [] = True"
| "cleared_before_emit (AddStroke i # t) = (flags_cleared t \<and> cleared_before_emit t)"
| "cleared_before_emit (e # t) = cleared_before_emit t"

fun just_picked :: "nat \<Rightarrow> event list \<Rightarrow> bool" where
  "just_picked i (SetPicked j # t) = (i = j)"
| "just_picked i t = False"

fun picked_before_stroke :: "event list \<Rightarrow> bool" where
  "picked_before_stroke [] = True"
| "picked_before_stroke (AddStroke i # t) = (just_picked i t \<and> picked_before_stroke t)"
| "picked_before_stroke (e # t) = picked_before_stroke t"

fun emitted_once :: "event list \<Rightarrow> bool" where
  "emitted_once [] = True"
| "emitted_once (AddStroke i # t) = (i \<notin> set (since_clear t) \<and> emitted_once t)"
| "emitted_once (e # t) = emitted_once t"

subsection \<open>Notions used by the properties\<close>

text \<open>
  What an emission pass does to the state, step by step: it changes grease-pencil data, it
  tags, or it marks a chain that was not marked and adds a stroke for it.
\<close>

inductive pass_step :: "'g world \<Rightarrow> 'g world \<Rightarrow> bool" where
  ps_refl: "pass_step w w"
| ps_gp: "pass_step w w' \<Longrightarrow> pass_step w (w'\<lparr>gpencil := g\<rparr>)"
| ps_tag: "pass_step w w' \<Longrightarrow> pass_step w (w'\<lparr>events := TagUpdate p # events w'\<rparr>)"
| ps_emit:
    "pass_step w w' \<Longrightarrow> render_buffer_shared w' = Some rb \<Longrightarrow> i < length (chains rb)
     \<Longrightarrow> \<not> picked (chains rb ! i)
     \<Longrightarrow> pass_step w
           (w'\<lparr>render_buffer_shared :=
                  Some (rb\<lparr>chains := (chains rb)[i := (chains rb ! i)\<lparr>picked := True\<rparr>]\<rparr>),
               gpencil := g,
               events := AddStroke i # SetPicked i # events w'\<rparr>)"

text \<open>
  The shared buffer is absent or was computed for another frame.
\<close>

definition absent_or_stale :: "'g world \<Rightarrow> int \<Rightarrow> bool" where
  "absent_or_stale w frame =
     (case render_buffer_shared w of None \<Rightarrow> True | Some rb \<Rightarrow> cached_for_frame rb \<noteq> frame)"

text \<open>
  The invariant of the passes: the flags have been cleared, the log is in order, and every
  chain emitted since the clearing is marked in the buffer.
\<close>

definition chain_picked :: "'g world \<Rightarrow> nat \<Rightarrow> bool" where
  "chain_picked w i =
     (case render_buffer_shared w of
        None \<Rightarrow> False
      | Some rb \<Rightarrow> i < length (chains rb) \<and> picked (chains rb ! i))"

definition log_ok :: "event list \<Rightarrow> bool" where
  "log_ok t = (cleared_before_emit t \<and> picked_before_stroke t \<and> emitted_once t)"

definition pass_inv :: "'g world \<Rightarrow> bool" where
  "pass_inv w =
     (flags_cleared (events w) \<and> log_ok (events w)
      \<and> list_all (chain_picked w) (since_clear (events w)))"

text \<open>
  The common shape of the three single-frame operators.
\<close>

definition update_shape ::
  "'g host \<Rightarrow> Object option \<Rightarrow> Object option \<Rightarrow> 'g world \<Rightarrow> 'g world outcome" where
  "update_shape h source_only target_only w =
     (let scene = ctx_scene w;
          frame = cfra scene;
          w1 = (if absent_or_stale w frame then lanpr_compute_feature_lines_internal h w else w);
          w2 = lanpr_chain_clear_picked_flag w1
      in then_do
           (then_do
              (lanpr_update_gp_strokes_recursive h (master_collection scene) frame source_only
                 target_only w2)
              (lanpr_update_gp_strokes_collection h (master_collection scene) frame False
                 target_only))
           (\<lambda>w4. Finished (add_notifier (lanpr_clear_gp_lanpr_flags h w4 frame))))"

text \<open>
  The order of the filters as the spec words it: "already-picked (skip),
  collection/object/source filters, type bitmask filter, level-range filter".
\<close>

definition spec_chain_verdict ::
  "'g host \<Rightarrow> Object option \<Rightarrow> int \<Rightarrow> int \<Rightarrow> Collection option \<Rightarrow> uint
     \<Rightarrow> LANPR_RenderLineChain \<Rightarrow> verdict" where
  "spec_chain_verdict h ob qi_begin qi_end col types rlc =
     (if picked rlc then SkipPicked
      else if ob \<noteq> None \<and> object_ref rlc = None then SkipNoObject
      else if ob \<noteq> None \<and> Some (ob_addr (the ob)) \<noteq> object_ref rlc then SkipOtherObject
      else if col \<noteq> None \<and> object_ref rlc \<noteq> None
              \<and> \<not> BKE_collection_has_object_recursive h (the col) (the (object_ref rlc))
           then SkipNotInCollection
      else if chain_type rlc AND types = 0 then SkipType
      else if level rlc > qi_end \<or> level rlc < qi_begin then SkipLevel
      else Emit)"

text \<open>
  Concrete inputs. A mesh object with a feature-line modifier and a collection both target
  the same grease-pencil object; the buffer has a chain of the mesh (still marked from an
  earlier update) and an intersection chain without object. The store of the host is a
  stroke count and the "cleared" bit of its single frame. \<open>keep_host\<close> has an engine that
  leaves the shared buffer as it finds it.
\<close>

definition gp_ob :: Object where
  "gp_ob = Object 2 OB_GPENCIL 3 []"

definition mesh_ob :: Object where
  "mesh_ob = Object 1 OB_MESH 4 [FeatureLineModifier (Some gp_ob) 0 0 0 False 0 1]"

definition demo_collection :: Collection where
  "demo_collection =
     Collection [mesh_ob, gp_ob] []
       \<lparr>lanpr_usage = COLLECTION_LANPR_INCLUDE, lanpr_target = Some gp_ob, lanpr_layer = 0,
        lanpr_level_begin = 0, lanpr_level_end = 0, lanpr_use_multiple_levels = False,
        lanpr_material = 0, lanpr_types = 1\<rparr>"

definition demo_scene :: "master_mode \<Rightarrow> Scene" where
  "demo_scene mode =
     \<lparr>cfra = 5, sfra = 5, efra = 6, master_mode = mode, master_collection = demo_collection\<rparr>"

definition demo_buffer :: LANPR_RenderBuffer where
  "demo_buffer =
     \<lparr>cached_for_frame = 5,
      chains = [\<lparr>picked = True, object_ref = Some 1, chain_type = 1, level = 0,
                 chain = [\<lparr>gpos = (Zero False, Fin 1, Zero False)\<rparr>]\<rparr>,
                \<lparr>picked = False, object_ref = None, chain_type = 1, level = 0, chain = []\<rparr>],
      gpencil_overwrite = True\<rparr>"

definition demo_host :: "(nat \<times> bool) host" where
  "demo_host =
     \<lparr>compute_buffer = (\<lambda>scene rb. Some (demo_buffer\<lparr>cached_for_frame := cfra scene\<rparr>)),
      DEG_evaluate_on_framechange = (\<lambda>scene frame. scene\<lparr>cfra := frame\<rparr>),
      BKE_collection_has_object_recursive = (\<lambda>col a. a \<in> set (map ob_addr (gobject col))),
      lanpr_count_chain = (\<lambda>rlc. int (length (chain rlc))),
      BKE_gpencil_layer_get_index = (\<lambda>g gpd index. Some 0),
      BKE_gpencil_layer_addnew = (\<lambda>g gpd. (g, 0)),
      BKE_gpencil_layer_getframe = (\<lambda>g gpl frame. (g, 0)),
      BKE_gpencil_layer_find_frame = (\<lambda>g gpl frame. Some 0),
      BKE_gpencil_free_strokes = (\<lambda>g gpf. (0, snd g)),
      BKE_gpencil_add_stroke = (\<lambda>g gpf color_idx count thickness. ((Suc (fst g), snd g), fst g)),
      BKE_gpencil_stroke_add_points = (\<lambda>g gps stroke_data count. g),
      gpd_layers = (\<lambda>g gpd. [0]),
      gpf_strokes_first = (\<lambda>g gpf. fst g \<noteq> 0),
      gpf_flag_lanpr_cleared = (\<lambda>g gpf. snd g),
      gpf_set_flag_lanpr_cleared = (\<lambda>g gpf b. (fst g, b)),
      gps_set_mat_nr = (\<lambda>g gps material_nr. g)\<rparr>"

definition demo_world :: "master_mode \<Rightarrow> LANPR_RenderBuffer option \<Rightarrow> (nat \<times> bool) world" where
  "demo_world mode rb =
     \<lparr>render_buffer_shared = rb, gpencil = (0, False), ctx_scene = demo_scene mode,
      eval_scene = demo_scene mode, ctx_active_object = Some gp_ob,
      deg_objects = [mesh_ob, gp_ob], events = []\<rparr>"

definition keep_host :: "(nat \<times> bool) host" where
  "keep_host = demo_host\<lparr>compute_buffer := (\<lambda>scene rb. rb)\<rparr>"

definition other_chain :: LANPR_RenderLineChain where
  "other_chain = \<lparr>picked = False, object_ref = Some 9, chain_type = 1, level = 0, chain = []\<rparr>"

chapter \<open>Properties\<close>

section \<open>Ranges of integers\<close>

subsection \<open>Iteration\<close>

lemma iterate_steps:
  "unat (m_current fin - m_current it) = n \<Longrightarrow>
   iterate it fin = map (\<lambda>i. m_current it + of_nat i) [0..<n]"
proof (induction n arbitrary: it)
  case 0
  then have "m_current it = m_current fin" by (simp add: unat_eq_zero)
  then show ?case by (simp add: iterate.simps Iterator_neq_def)
next
  case (Suc n)
  then have ne: "m_current it \<noteq> m_current fin" by auto
  have "unat (m_current fin - m_current (Iterator_incr it)) = n"
    using Suc.prems unat_diff_succ(1)[OF ne] by (simp add: Iterator_incr_def)
  from Suc.IH[OF this]
  have "iterate (Iterator_incr it) fin = map (\<lambda>i. m_current it + 1 + of_nat i) [0..<n]"
    by (simp add: Iterator_incr_def)
  then have "iterate it fin = m_current it # map (\<lambda>i. m_current it + 1 + of_nat i) [0..<n]"
    using ne by (subst iterate.simps) (simp add: Iterator_neq_def Iterator_deref_def)
  also have "\<dots> = map (\<lambda>i. m_current it + of_nat i) [0..<Suc n]"
    by (simp add: upt_rec[of 0 "Suc n"] map_Suc_upt[symmetric] del: upt_Suc)
  finally show ?case .
qed

text \<open>At every width the loop yields the numbers from \<open>m_start\<close> on, as many as the
  difference of the two fields says.\<close>

lemma Range_values_eq:
  "Range_values r
     = map (\<lambda>i. m_start r + of_nat i) [0..<unat (m_one_after_last r - m_start r)]"
  unfolding Range_values_def
  by (subst iterate_steps[OF refl]) (simp add: Range_begin_def Range_end_def)

text \<open>At \<^verbatim>\<open>T = uint\<close> the conversions of \<^verbatim>\<open>size()\<close> and \<^verbatim>\<open>slice\<close> change nothing.\<close>

lemma Range_size_uint: "Range_size (r :: uint Range) = m_one_after_last r - m_start r"
  by (simp add: Range_size_def)


lemma unat_start_plus:
  fixes start oal :: uint
  assumes "start \<le> oal" and "i < unat (oal - start)"
  shows "unat (start + of_nat i) = unat start + i"
proof -
  have d: "unat (oal - start) = unat oal - unat start"
    using assms(1) by (simp add: unat_sub)
  have b: "unat oal < 2 ^ 32" using unsigned_less[of oal, where 'a = nat] by simp
  from assms(2) d b have i: "i < 2 ^ 32" and s: "unat start + i < 2 ^ 32" by linarith+
  from i have "unat (of_nat i :: uint) = i" by (simp add: unsigned_of_nat take_bit_nat_eq_self)
  with s show ?thesis by (simp add: unat_add_lem[THEN iffD1])
qed

text \<open>
  C6, as the code has it. For every \<^verbatim>\<open>Range<uint>\<close> built from \<open>start \<le> one_after_last\<close> (in
  either build): \<^verbatim>\<open>size()\<close> is \<open>one_after_last - start\<close>, with no wrap-around; the loop from
  \<^verbatim>\<open>begin()\<close> to \<^verbatim>\<open>end()\<close> yields exactly \<^verbatim>\<open>size()\<close> values, the \<open>i\<close>-th being \<open>start + i\<close>
  (increasing, step one, from \<open>start\<close>); and \<^verbatim>\<open>contains(v)\<close> holds iff
  \<open>start \<le> v < one_after_last\<close>.
\<close>

theorem Range_size_iterate_contains:
  fixes start one_after_last :: uint
  assumes "start \<le> one_after_last"
  shows "\<exists>r. Range_ctor debug start one_after_last = Inr r
           \<and> Range_size r = one_after_last - start
           \<and> unat (Range_size r) = unat one_after_last - unat start
           \<and> length (Range_values r) = unat (Range_size r)
           \<and> (\<forall>i < length (Range_values r). unat (Range_values r ! i) = unat start + i)
           \<and> sorted_wrt (<) (Range_values r)
           \<and> (\<forall>v. Range_contains r v \<longleftrightarrow> start \<le> v \<and> v < one_after_last)"
proof -
  define r where "r = \<lparr>m_start = start, m_one_after_last = one_after_last\<rparr>"
  have c: "Range_ctor debug start one_after_last = Inr r"
    using assms by (simp add: Range_ctor_def BLI_assert_def r_def)
  have sz: "Range_size r = one_after_last - start" by (simp add: Range_size_uint r_def)
  have usz: "unat (Range_size r) = unat one_after_last - unat start"
    using assms by (simp add: sz unat_sub)
  have len: "length (Range_values r) = unat (Range_size r)"
    by (simp add: Range_values_eq Range_size_uint)
  have nth: "unat (Range_values r ! i) = unat start + i" if "i < length (Range_values r)" for i
  proof -
    from that have i: "i < unat (one_after_last - start)" by (simp add: len sz)
    then have "Range_values r ! i = start + of_nat i"
      by (simp add: Range_values_eq r_def)
    with unat_start_plus[OF assms i] show ?thesis by simp
  qed
  have srt: "sorted_wrt (<) (Range_values r)"
    unfolding sorted_wrt_iff_nth_less
  proof (intro allI impI)
    fix i j assume "i < j" "j < length (Range_values r)"
    then have "unat (Range_values r ! i) < unat (Range_values r ! j)"
      by (simp add: nth)
    then show "Range_values r ! i < Range_values r ! j" by (simp add: word_less_nat_alt)
  qed
  have ct: "Range_contains r v \<longleftrightarrow> start \<le> v \<and> v < one_after_last" for v
    by (simp add: Range_contains_def r_def)
  from c sz usz len nth srt ct show ?thesis by blast
qed

theorem Range_size_iterate_contains_witness:
  "(3::uint) \<le> 7 \<and>
   (\<exists>r. Range_ctor True (3::uint) 7 = Inr r
       \<and> Range_size r = 7 - 3
       \<and> unat (Range_size r) = unat (7::uint) - unat (3::uint)
       \<and> length (Range_values r) = unat (Range_size r)
       \<and> (\<forall>i < length (Range_values r). unat (Range_values r ! i) = unat (3::uint) + i)
       \<and> sorted_wrt (<) (Range_values r)
       \<and> (\<forall>v. Range_contains r v \<longleftrightarrow> 3 \<le> v \<and> v < 7))"
proof -
  have h: "(3::uint) \<le> 7" by simp
  show ?thesis using h Range_size_iterate_contains[OF h, of True] by simp
qed

text \<open>
  C6 as stated fails at a \<^verbatim>\<open>T\<close> wider than \<^verbatim>\<open>uint\<close>, where \<^verbatim>\<open>size()\<close> truncates. The range
  \<^verbatim>\<open>Range<uint64_t>(0, 4294967299)\<close> is built without failure from \<open>start \<le> one_after_last\<close>;
  its \<^verbatim>\<open>size()\<close> is \<open>3\<close>, not \<open>one_after_last - start\<close>, while the loop yields \<open>4294967299\<close>
  values and \<^verbatim>\<open>contains\<close> holds of as many numbers, \<open>3\<close> among them.
\<close>

theorem Range_size_truncates_counterexample:
  "(0::64 word) \<le> 4294967299
   \<and> Range_ctor True 0 4294967299 = Inr wide_range
   \<and> Range_size wide_range = 3
   \<and> unat (m_one_after_last wide_range - m_start wide_range) = 4294967299
   \<and> length (Range_values wide_range) = 4294967299
   \<and> unat (Range_size wide_range) \<noteq> length (Range_values wide_range)
   \<and> Range_contains wide_range 3"
  by (simp add: Range_ctor_def BLI_assert_def wide_range_def Range_size_def Range_values_eq
      Range_contains_def)



text \<open>
  C10. \<^verbatim>\<open>operator==\<close> compares the two fields: it holds iff both \<open>m_start\<close> and
  \<open>m_one_after_last\<close> agree. \<^verbatim>\<open>Range(1, 1)\<close> and \<^verbatim>\<open>Range(2, 2)\<close> are both built without
  failure, contain no number and yield no value, and compare unequal. Stated at
  \<^verbatim>\<open>T = uint\<close>; the comparison is the same at every width.
\<close>

theorem Range_eq_representational:
  fixes a b :: "uint Range" and v :: uint
  shows
  "(Range_eq a b \<longleftrightarrow> m_start a = m_start b \<and> m_one_after_last a = m_one_after_last b)
   \<and> Range_ctor debug (1::uint) 1 = Inr \<lparr>m_start = 1, m_one_after_last = 1\<rparr>
   \<and> Range_ctor debug (2::uint) 2 = Inr \<lparr>m_start = 2, m_one_after_last = 2\<rparr>
   \<and> \<not> Range_contains \<lparr>m_start = 1, m_one_after_last = 1\<rparr> v
   \<and> \<not> Range_contains \<lparr>m_start = 2, m_one_after_last = 2\<rparr> v
   \<and> Range_values \<lparr>m_start = 1 :: uint, m_one_after_last = 1\<rparr> = []
   \<and> Range_values \<lparr>m_start = 2 :: uint, m_one_after_last = 2\<rparr> = []
   \<and> \<not> Range_eq \<lparr>m_start = 1 :: uint, m_one_after_last = 1\<rparr> \<lparr>m_start = 2, m_one_after_last = 2\<rparr>"
  by (auto simp: Range_eq_def Range_ctor_def BLI_assert_def Range_contains_def
      Range_values_eq)

section \<open>Rounding to single precision\<close>

lemma quantum_pos: "0 < u \<Longrightarrow> 0 < quantum u q"
  by (induction u q rule: quantum.induct) (subst quantum.simps, simp)

lemma quantum_pow: "0 < u \<Longrightarrow> \<exists>j::nat. quantum u q = 2 ^ j * u"
proof (induction u q rule: quantum.induct)
  case (1 u q)
  show ?case
  proof (cases "2 ^ 24 * u \<le> \<bar>q\<bar>")
    case True
    with 1 obtain j :: nat where "quantum (2 * u) q = 2 ^ j * (2 * u)" by auto
    with True 1(2) have "quantum u q = 2 ^ Suc j * u" by (subst quantum.simps) simp
    then show ?thesis by blast
  next
    case False
    then have "quantum u q = 2 ^ 0 * u" by (subst quantum.simps) simp
    then show ?thesis by blast
  qed
qed

lemma quantum_lower: "0 < u \<Longrightarrow> quantum u q = u \<or> 2 ^ 23 * quantum u q \<le> \<bar>q\<bar>"
proof (induction u q rule: quantum.induct)
  case (1 u q)
  show ?case
  proof (cases "2 ^ 24 * u \<le> \<bar>q\<bar>")
    case True
    then have e: "quantum u q = quantum (2 * u) q" using 1(2) by (subst quantum.simps) simp
    from 1 True have "quantum (2 * u) q = 2 * u \<or> 2 ^ 23 * quantum (2 * u) q \<le> \<bar>q\<bar>" by simp
    then show ?thesis using True e by auto
  next
    case False
    then show ?thesis by (subst quantum.simps) simp
  qed
qed

lemma quantum_upper: "0 < u \<Longrightarrow> \<bar>q\<bar> < 2 ^ 24 * quantum u q"
proof (induction u q rule: quantum.induct)
  case (1 u q)
  show ?case
  proof (cases "2 ^ 24 * u \<le> \<bar>q\<bar>")
    case True
    then have e: "quantum u q = quantum (2 * u) q" using 1(2) by (subst quantum.simps) simp
    from 1 True show ?thesis unfolding e by simp
  next
    case False
    then show ?thesis by (subst quantum.simps) simp
  qed
qed

lemma quantum_unique:
  "0 < u \<Longrightarrow> v = 2 ^ j * u \<Longrightarrow> j = 0 \<or> 2 ^ 23 * v \<le> \<bar>q\<bar> \<Longrightarrow> \<bar>q\<bar> < 2 ^ 24 * v
   \<Longrightarrow> quantum u q = v"
proof (induction j arbitrary: u)
  case 0
  then show ?case by (subst quantum.simps) simp
next
  case (Suc j)
  have "(1::rat) \<le> 2 ^ j" by simp
  then have "u \<le> 2 ^ j * u" using Suc.prems(1) by (simp add: mult_le_cancel_right1) 
  then have "2 ^ 24 * u \<le> 2 ^ 23 * v" using Suc.prems(2) by simp
  with Suc.prems(3) have big: "2 ^ 24 * u \<le> \<bar>q\<bar>" by simp
  then have e: "quantum u q = quantum (2 * u) q" using Suc.prems(1) by (subst quantum.simps) simp
  have "quantum (2 * u) q = v"
    by (rule Suc.IH) (use Suc.prems in simp_all)
  with e show ?case by simp
qed

lemma round_half_even_of_int [simp]: "round_half_even (of_int n) = n"
  by (simp add: round_half_even_def)

lemma round_half_even_close: "\<bar>of_int (round_half_even x) - x\<bar> \<le> 1 / 2"
proof -
  have "of_int \<lfloor>x\<rfloor> \<le> x" "x < of_int \<lfloor>x\<rfloor> + 1" by linarith+
  then show ?thesis by (auto simp: round_half_even_def Let_def)
qed

lemma round_half_even_minus: "round_half_even (- x) = - round_half_even x"
proof (cases "x = of_int \<lfloor>x\<rfloor>")
  case True
  then obtain n :: int where "x = of_int n" ..
  then have "- x = of_int (- n)" by simp
  then show ?thesis using \<open>x = of_int n\<close> by (simp only: round_half_even_of_int)
next
  case False
  have b: "of_int \<lfloor>x\<rfloor> \<le> x" "x < of_int \<lfloor>x\<rfloor> + 1" by linarith+
  have lt: "of_int \<lfloor>x\<rfloor> < x" using False by (auto simp: less_le)
  have "\<lfloor>- x\<rfloor> = - \<lfloor>x\<rfloor> - 1"
    by (rule floor_unique) (use lt b in simp_all)
  then show ?thesis using lt b by (auto simp: round_half_even_def Let_def)
qed

lemma min_quantum_pos: "0 < min_quantum"
  by (simp add: min_quantum_def)

lemma quantum_minus: "quantum u (- q) = quantum u q"
proof (induction u q rule: quantum.induct)
  case (1 u q)
  have "quantum u (- q) = (if 0 < u \<and> 2 ^ 24 * u \<le> \<bar>q\<bar> then quantum (2 * u) (- q) else u)"
    by (subst quantum.simps) simp
  also have "\<dots> = (if 0 < u \<and> 2 ^ 24 * u \<le> \<bar>q\<bar> then quantum (2 * u) q else u)"
    using 1 by simp
  also have "\<dots> = quantum u q"
    by (rule quantum.simps[symmetric])
  finally show ?case .
qed

lemma rne_eq: "rne q = of_int (round_half_even (q / quantum min_quantum q)) * quantum min_quantum q"
  by (simp add: rne_def Let_def)

lemma rne_minus: "rne (- q) = - rne q"
  by (simp add: rne_eq quantum_minus round_half_even_minus)

lemma rne_zero [simp]: "rne 0 = 0"
  using round_half_even_of_int[of 0] by (simp add: rne_eq)

lemma round_half_even_big:
  assumes "2 ^ 23 \<le> \<bar>x\<bar>"
  shows "2 ^ 23 \<le> \<bar>round_half_even x\<bar>"
proof -
  have c: "\<bar>of_int (round_half_even x) - x\<bar> \<le> 1 / 2" by (rule round_half_even_close)
  have "(2 ^ 23 - 1 :: rat) < \<bar>of_int (round_half_even x)\<bar>"
    using assms c by linarith
  then have "(of_int (2 ^ 23 - 1) :: rat) < of_int \<bar>round_half_even x\<bar>" by simp
  then have "2 ^ 23 - 1 < \<bar>round_half_even x\<bar>" by (simp only: of_int_less_iff)
  then show ?thesis by simp
qed

lemma round_half_even_small:
  assumes "\<bar>x\<bar> < 2 ^ 24"
  shows "\<bar>round_half_even x\<bar> \<le> 2 ^ 24"
proof -
  have c: "\<bar>of_int (round_half_even x) - x\<bar> \<le> 1 / 2" by (rule round_half_even_close)
  have "\<bar>of_int (round_half_even x)\<bar> < (2 ^ 24 + 1 :: rat)"
    using assms c by linarith
  then have "(of_int \<bar>round_half_even x\<bar> :: rat) < of_int (2 ^ 24 + 1)" by simp
  then have "\<bar>round_half_even x\<bar> < 2 ^ 24 + 1" by (simp only: of_int_less_iff)
  then show ?thesis by simp
qed

text \<open>Every representable value is an integer multiple of the smallest quantum.\<close>

lemma rne_multiple: "\<exists>k::int. rne q = of_int k * min_quantum"
proof -
  obtain j :: nat where j: "quantum min_quantum q = 2 ^ j * min_quantum"
    using quantum_pow[OF min_quantum_pos] by blast
  have "rne q = of_int (round_half_even (q / quantum min_quantum q) * 2 ^ j) * min_quantum"
    by (simp add: rne_eq j)
  then show ?thesis by blast
qed

lemma rne_nonzero:
  assumes "q = of_int k * min_quantum" and "q \<noteq> 0"
  shows "rne q \<noteq> 0"
proof -
  define u where "u = quantum min_quantum q"
  have up: "0 < u" unfolding u_def by (rule quantum_pos[OF min_quantum_pos])
  have r: "rne q = of_int (round_half_even (q / u)) * u" by (simp add: rne_eq u_def)
  consider "u = min_quantum" | "2 ^ 23 * u \<le> \<bar>q\<bar>"
    using quantum_lower[OF min_quantum_pos, of q] by (auto simp: u_def)
  then have "round_half_even (q / u) \<noteq> 0"
  proof cases
    case 1
    then have "q / u = of_int k" using assms(1) min_quantum_pos by simp
    moreover have "k \<noteq> 0" using assms by auto
    ultimately show ?thesis by simp
  next
    case 2
    then have "2 ^ 23 \<le> \<bar>q / u\<bar>" using up by (simp add: pos_le_divide_eq)
    from round_half_even_big[OF this] show ?thesis by auto
  qed
  with up show ?thesis by (simp add: r)
qed

lemma rne_idem: "rne (rne q) = rne q"
proof -
  define u where "u = quantum min_quantum q"
  define n where "n = round_half_even (q / u)"
  have up: "0 < u" unfolding u_def by (rule quantum_pos[OF min_quantum_pos])
  have r: "rne q = of_int n * u" by (simp add: rne_eq u_def n_def)
  obtain j :: nat where j: "u = 2 ^ j * min_quantum"
    using quantum_pow[OF min_quantum_pos] unfolding u_def by blast
  have "\<bar>q\<bar> < 2 ^ 24 * u" unfolding u_def by (rule quantum_upper[OF min_quantum_pos])
  then have "\<bar>q / u\<bar> < 2 ^ 24" using up by (simp add: pos_divide_less_eq)
  then have nle: "\<bar>n\<bar> \<le> 2 ^ 24" unfolding n_def by (rule round_half_even_small)
  have absr: "\<bar>of_int n * u\<bar> = of_int \<bar>n\<bar> * u" using up by (simp add: abs_mult)
  show ?thesis
  proof (cases "\<bar>n\<bar> = 2 ^ 24")
    case True
    have qu: "quantum min_quantum (of_int n * u) = 2 * u"
    proof (rule quantum_unique[OF min_quantum_pos, where j = "Suc j"])
      show "2 * u = 2 ^ Suc j * min_quantum" by (simp add: j)
      show "Suc j = 0 \<or> 2 ^ 23 * (2 * u) \<le> \<bar>of_int n * u\<bar>" by (simp add: absr True)
      show "\<bar>of_int n * u\<bar> < 2 ^ 24 * (2 * u)" using up by (simp add: absr True)
    qed
    have "of_int n * u / (2 * u) = of_int (n div 2)"
    proof -
      from True have "n = 2 ^ 24 \<or> n = - (2 ^ 24)" by linarith
      then show ?thesis using up by auto
    qed
    moreover have "of_int (n div 2) * (2 * u) = (of_int n :: rat) * u"
    proof -
      from True have "n = 2 ^ 24 \<or> n = - (2 ^ 24)" by linarith
      then show ?thesis by auto
    qed
    ultimately show ?thesis by (simp add: r rne_eq[of "of_int n * u"] qu)
  next
    case False
    with nle have nlt: "\<bar>n\<bar> < 2 ^ 24" by simp
    have qu: "quantum min_quantum (of_int n * u) = u"
    proof (rule quantum_unique[OF min_quantum_pos, where j = j])
      show "u = 2 ^ j * min_quantum" by (rule j)
      show "\<bar>of_int n * u\<bar> < 2 ^ 24 * u"
      proof -
        from nlt have "(of_int \<bar>n\<bar> :: rat) < of_int (2 ^ 24)" by (simp only: of_int_less_iff)
        then show ?thesis using up by (simp add: absr)
      qed
      show "j = 0 \<or> 2 ^ 23 * u \<le> \<bar>of_int n * u\<bar>"
      proof (cases "j = 0")
        case False
        then have "(1::rat) < 2 ^ j" by (simp add: one_less_power)
        then have "u \<noteq> min_quantum" using j min_quantum_pos by simp
        then have "2 ^ 23 * u \<le> \<bar>q\<bar>"
          using quantum_lower[OF min_quantum_pos, of q] by (simp add: u_def)
        then have "2 ^ 23 \<le> \<bar>q / u\<bar>" using up by (simp add: pos_le_divide_eq)
        then have "2 ^ 23 \<le> \<bar>n\<bar>" unfolding n_def by (rule round_half_even_big)
        then have "(of_int (2 ^ 23) :: rat) \<le> of_int \<bar>n\<bar>" by (simp only: of_int_le_iff)
        then show ?thesis using up by (simp add: absr)
      qed simp
    qed
    show ?thesis using up by (simp add: r rne_eq[of "of_int n * u"] qu)
  qed
qed

section \<open>The map-range node\<close>

lemma round32_not_zero:
  "rne q \<noteq> 0 \<Longrightarrow> \<not> is_zero (round32 q)"
  by (simp add: round32_def Let_def)

lemma valid_round32: "valid (round32 q)"
  by (simp add: round32_def Let_def rne_idem not_le)

lemma round32_valid: "valid (Fin q) \<Longrightarrow> round32 q = Fin q"
  by (simp add: round32_def Let_def)

lemma fsub_not_zero:
  assumes "valid a" and "valid b" and "fne a b"
  shows "\<not> is_zero (fsub a b)"
proof (cases a)
  case (Fin x)
  note a = this
  show ?thesis
  proof (cases b)
    case (Fin y)
    obtain k l :: int where "rne x = of_int k * min_quantum" "rne y = of_int l * min_quantum"
      using rne_multiple by blast
    with assms a Fin have "x - y = of_int (k - l) * min_quantum" and "x - y \<noteq> 0"
      by (simp_all add: algebra_simps)
    then have "rne (x - y) \<noteq> 0" by (rule rne_nonzero)
    then show ?thesis using a Fin by (simp add: fsub_def round32_not_zero)
  qed (use assms a in \<open>simp_all add: fsub_def\<close>)
qed (use assms in \<open>cases b; simp add: fsub_def\<close>)+

lemma valid_fneg: "valid a \<Longrightarrow> valid (fneg a)"
  by (cases a) (simp_all add: rne_minus)

lemma valid_fadd: "valid a \<Longrightarrow> valid b \<Longrightarrow> valid (fadd a b)"
  by (cases a; cases b) (simp_all add: valid_round32)

lemma valid_fsub: "valid a \<Longrightarrow> valid b \<Longrightarrow> valid (fsub a b)"
  by (simp add: fsub_def valid_fadd valid_fneg)

lemma valid_fmul: "valid a \<Longrightarrow> valid b \<Longrightarrow> valid (fmul a b)"
  by (cases a; cases b) (simp_all add: valid_round32)

lemma valid_fdiv: "valid a \<Longrightarrow> valid b \<Longrightarrow> valid (fdiv a b)"
  by (cases a; cases b) (simp_all add: valid_round32)

lemma rne_at:
  assumes "v = 2 ^ j * min_quantum" and "j = 0 \<or> 2 ^ 23 * v \<le> \<bar>q\<bar>" and "\<bar>q\<bar> < 2 ^ 24 * v"
  shows "rne q = of_int (round_half_even (q / v)) * v"
  using quantum_unique[OF min_quantum_pos assms] by (simp add: rne_eq)

lemma rne_1 [simp]: "rne 1 = 1"
  using round_half_even_of_int[of "2 ^ 23"]
  by (subst rne_at[where j = 126 and v = "1 / 2 ^ 23"]) (simp_all add: min_quantum_def)

lemma rne_2p30 [simp]: "rne 1073741824 = 1073741824"
  using round_half_even_of_int[of "2 ^ 23"]
  by (subst rne_at[where j = 156 and v = "2 ^ 7"]) (simp_all add: min_quantum_def)

lemma rne_2p30m1 [simp]: "rne 1073741823 = 1073741824"
proof -
  have f: "\<lfloor>1073741823 / 64 :: rat\<rfloor> = 16777215"
    by (rule floor_unique) simp_all
  have "round_half_even (1073741823 / 64) = 16777216"
    by (simp add: round_half_even_def f)
  then show ?thesis
    by (subst rne_at[where j = 155 and v = "2 ^ 6"]) (simp_all add: min_quantum_def)
qed

lemma fmul_one: "valid t \<Longrightarrow> fmul (Fin 1) t = t"
  by (cases t) (simp_all add: round32_valid)

lemma fdiv_self: "valid (Fin q) \<Longrightarrow> fdiv (Fin q) (Fin q) = Fin 1"
  by (simp add: round32_def)

lemma svm_node_map_range_eq:
  "svm_node_map_range kg stack vo mino maxo offset =
     (stack(uint4_w (svm_nodes kg offset) :=
        (if fne (stack maxo) (stack mino)
            \<and> fne (stack (uint4_z (svm_nodes kg offset))) (stack (uint4_y (svm_nodes kg offset)))
         then fadd (stack (uint4_y (svm_nodes kg offset)))
                (fmul (fdiv (fsub (stack vo) (stack mino)) (fsub (stack maxo) (stack mino)))
                      (fsub (stack (uint4_z (svm_nodes kg offset)))
                            (stack (uint4_y (svm_nodes kg offset)))))
         else Zero False)),
      offset + 1)"
  by (simp add: svm_node_map_range_def read_node_def stack_load_float_def
      stack_store_float_def Let_def)

lemma round32_value:
  "\<bar>rne q\<bar> < 2 ^ 128 \<Longrightarrow> finite_float (round32 q) \<and> fval (round32 q) = rne q"
  by (simp add: round32_def Let_def finite_float_def rne_idem)

lemma finite_float_fneg: "finite_float x \<Longrightarrow> finite_float (fneg x) \<and> fval (fneg x) = - fval x"
  by (cases x) (simp_all add: finite_float_def rne_minus)

lemma fadd_value:
  assumes "finite_float x" "finite_float y" "\<bar>rne (fval x + fval y)\<bar> < 2 ^ 128"
  shows "finite_float (fadd x y) \<and> fval (fadd x y) = rne (fval x + fval y)"
  using assms round32_value[of "fval x + fval y"]
  by (cases x; cases y) (simp_all add: finite_float_def)

lemma fsub_value:
  assumes "finite_float x" "finite_float y" "\<bar>rne (fval x - fval y)\<bar> < 2 ^ 128"
  shows "finite_float (fsub x y) \<and> fval (fsub x y) = rne (fval x - fval y)"
  using fadd_value[OF assms(1) finite_float_fneg[THEN conjunct1, OF assms(2)]] assms
    finite_float_fneg[OF assms(2)]
  by (simp add: fsub_def)

lemma fmul_value:
  assumes "finite_float x" "finite_float y" "\<bar>rne (fval x * fval y)\<bar> < 2 ^ 128"
  shows "finite_float (fmul x y) \<and> fval (fmul x y) = rne (fval x * fval y)"
  using assms round32_value[of "fval x * fval y"]
  by (cases x; cases y) (simp_all add: finite_float_def)

lemma fdiv_value:
  assumes "finite_float x" "finite_float y" "fval y \<noteq> 0" "\<bar>rne (fval x / fval y)\<bar> < 2 ^ 128"
  shows "finite_float (fdiv x y) \<and> fval (fdiv x y) = rne (fval x / fval y)"
  using assms round32_value[of "fval x / fval y"]
  by (cases x; cases y) (simp_all add: finite_float_def)

lemma not_zero_fval: "finite_float x \<Longrightarrow> \<not> is_zero x \<Longrightarrow> fval x \<noteq> 0"
  by (cases x) (simp_all add: finite_float_def)

lemma no_rounding_exact:
  "no_rounding v a b c d \<Longrightarrow> map_range_rounded v a b c d = map_range_exact v a b c d"
  by (simp add: no_rounding_def map_range_rounded_def map_range_exact_def)

lemma map_range_value:
  assumes f: "finite_float value" "finite_float fromMin" "finite_float fromMax"
      "finite_float toMin" "finite_float toMax"
    and ne: "fne fromMax fromMin"
    and no: "no_overflow (fval value) (fval fromMin) (fval fromMax) (fval toMin) (fval toMax)"
  shows "finite_float (fadd toMin (fmul (fdiv (fsub value fromMin) (fsub fromMax fromMin))
                                       (fsub toMax toMin)))
       \<and> fval (fadd toMin (fmul (fdiv (fsub value fromMin) (fsub fromMax fromMin))
                                 (fsub toMax toMin)))
           = map_range_rounded (fval value) (fval fromMin) (fval fromMax) (fval toMin) (fval toMax)
       \<and> rne (fval fromMax - fval fromMin) \<noteq> 0"
proof -
  from no have o1: "\<bar>rne (fval value - fval fromMin)\<bar> < 2 ^ 128"
    and o2: "\<bar>rne (fval fromMax - fval fromMin)\<bar> < 2 ^ 128"
    and o3: "\<bar>rne (rne (fval value - fval fromMin) / rne (fval fromMax - fval fromMin))\<bar> < 2 ^ 128"
    and o4: "\<bar>rne (fval toMax - fval toMin)\<bar> < 2 ^ 128"
    and o5: "\<bar>rne (rne (rne (fval value - fval fromMin) / rne (fval fromMax - fval fromMin))
                   * rne (fval toMax - fval toMin))\<bar> < 2 ^ 128"
    and o6: "\<bar>rne (fval toMin + rne (rne (rne (fval value - fval fromMin)
                                          / rne (fval fromMax - fval fromMin))
                                     * rne (fval toMax - fval toMin)))\<bar> < 2 ^ 128"
    by (simp_all add: no_overflow_def map_range_rounded_def)
  note d1 = fsub_value[OF f(1) f(2) o1]
  note d2 = fsub_value[OF f(3) f(2) o2]
  have "\<not> is_zero (fsub fromMax fromMin)"
    using f(2,3) ne by (intro fsub_not_zero) (simp_all add: finite_float_def)
  with d2 have nz: "fval (fsub fromMax fromMin) \<noteq> 0" by (intro not_zero_fval) simp_all
  have q: "finite_float (fdiv (fsub value fromMin) (fsub fromMax fromMin))
           \<and> fval (fdiv (fsub value fromMin) (fsub fromMax fromMin))
               = rne (rne (fval value - fval fromMin) / rne (fval fromMax - fval fromMin))"
    using fdiv_value[OF d1[THEN conjunct1] d2[THEN conjunct1] nz] o3 d1 d2 by simp
  note d3 = fsub_value[OF f(5) f(4) o4]
  have p: "finite_float (fmul (fdiv (fsub value fromMin) (fsub fromMax fromMin)) (fsub toMax toMin))
           \<and> fval (fmul (fdiv (fsub value fromMin) (fsub fromMax fromMin)) (fsub toMax toMin))
               = rne (rne (rne (fval value - fval fromMin) / rne (fval fromMax - fval fromMin))
                      * rne (fval toMax - fval toMin))"
    using fmul_value[OF q[THEN conjunct1] d3[THEN conjunct1]] o5 q d3 by simp
  have s: "finite_float (fadd toMin (fmul (fdiv (fsub value fromMin) (fsub fromMax fromMin))
                                          (fsub toMax toMin)))
           \<and> fval (fadd toMin (fmul (fdiv (fsub value fromMin) (fsub fromMax fromMin))
                                    (fsub toMax toMin)))
               = rne (fval toMin + rne (rne (rne (fval value - fval fromMin)
                                              / rne (fval fromMax - fval fromMin))
                                         * rne (fval toMax - fval toMin)))"
    using fadd_value[OF f(4) p[THEN conjunct1]] o6 p by simp
  from s nz d2 show ?thesis by (simp add: map_range_rounded_def)
qed

lemma rne_exact:
  assumes "v = 2 ^ j * min_quantum" and "j = 0 \<or> 2 ^ 23 * v \<le> \<bar>q\<bar>" and "\<bar>q\<bar> < 2 ^ 24 * v"
    and "q = of_int n * v"
  shows "rne q = q"
proof -
  have "0 < v" using assms(1) min_quantum_pos by simp
  then have "q / v = of_int n" using assms(4) by simp
  then show ?thesis using rne_at[OF assms(1-3)] assms(4) by simp
qed

lemma rne_half [simp]: "rne (1 / 2) = 1 / 2"
  by (rule rne_exact[where j = 125 and v = "1 / 2 ^ 24" and n = "2 ^ 23"])
    (simp_all add: min_quantum_def)

lemma rne_2 [simp]: "rne 2 = 2"
  by (rule rne_exact[where j = 127 and v = "1 / 2 ^ 22" and n = "2 ^ 23"])
    (simp_all add: min_quantum_def)

lemma rne_3 [simp]: "rne 3 = 3"
  by (rule rne_exact[where j = 127 and v = "1 / 2 ^ 22" and n = "3 * 2 ^ 22"])
    (simp_all add: min_quantum_def)

lemma rne_4 [simp]: "rne 4 = 4"
  by (rule rne_exact[where j = 128 and v = "1 / 2 ^ 21" and n = "2 ^ 23"])
    (simp_all add: min_quantum_def)

lemma rne_5 [simp]: "rne 5 = 5"
  by (rule rne_exact[where j = 128 and v = "1 / 2 ^ 21" and n = "5 * 2 ^ 21"])
    (simp_all add: min_quantum_def)

lemma rne_third [simp]: "rne (1 / 3) = 11184811 / 33554432"
proof -
  have f: "\<lfloor>33554432 / 3 :: rat\<rfloor> = 11184810"
    by (rule floor_unique) simp_all
  have "round_half_even (33554432 / 3) = 11184811"
    by (simp add: round_half_even_def f)
  then show ?thesis
    by (subst rne_at[where j = 124 and v = "1 / 2 ^ 25"]) (simp_all add: min_quantum_def)
qed

lemma rne_third_fixed [simp]: "rne (11184811 / 33554432) = 11184811 / 33554432"
  using rne_idem[of "1 / 3"] by simp

text \<open>
  C1, as the code has it. The node stores one float into the output slot, changes no other
  slot and advances the offset past its second word. When \<^verbatim>\<open>fromMax == fromMin\<close> or
  \<^verbatim>\<open>toMax == toMin\<close> it stores \<open>+0\<close>. Otherwise it stores
  \<open>toMin + ((value - fromMin) / (fromMax - fromMin)) * (toMax - toMin)\<close> evaluated in single
  precision, and the divisor of that division is not a zero. For finite inputs and results
  this is a statement about numbers: each of the five operations yields the exact result
  rounded to the nearest float, so the value stored is \<open>map_range_rounded\<close> of the five
  input values, and it is the exact interpolation whenever no operation has to round.
\<close>

theorem svm_node_map_range_computes:
  fixes kg :: KernelGlobals and stack :: "uint \<Rightarrow> float"
    and value_offset fromMin_offset fromMax_offset :: uint and offset :: int
  defines "node1 \<equiv> svm_nodes kg offset"
  defines "value \<equiv> stack value_offset"
    and "fromMin \<equiv> stack fromMin_offset"
    and "fromMax \<equiv> stack fromMax_offset"
    and "toMin \<equiv> stack (uint4_y node1)"
    and "toMax \<equiv> stack (uint4_z node1)"
  defines "out \<equiv> fst (svm_node_map_range kg stack value_offset fromMin_offset fromMax_offset offset)
                     (uint4_w node1)"
  defines "finite_inputs \<equiv> finite_float value \<and> finite_float fromMin \<and> finite_float fromMax
                            \<and> finite_float toMin \<and> finite_float toMax"
  shows "svm_node_map_range kg stack value_offset fromMin_offset fromMax_offset offset
           = (stack(uint4_w node1 := out), offset + 1)
       \<and> (feq fromMax fromMin \<or> feq toMax toMin \<longrightarrow> out = Zero False)
       \<and> (fne fromMax fromMin \<and> fne toMax toMin \<longrightarrow>
            out = fadd toMin (fmul (fdiv (fsub value fromMin) (fsub fromMax fromMin))
                                   (fsub toMax toMin)))
       \<and> (fne fromMax fromMin \<and> valid fromMin \<and> valid fromMax \<longrightarrow>
            \<not> is_zero (fsub fromMax fromMin))
       \<and> (fne fromMax fromMin \<and> fne toMax toMin \<and> finite_inputs
            \<and> no_overflow (fval value) (fval fromMin) (fval fromMax) (fval toMin) (fval toMax) \<longrightarrow>
            finite_float out
            \<and> fval out = map_range_rounded (fval value) (fval fromMin) (fval fromMax)
                            (fval toMin) (fval toMax)
            \<and> rne (fval fromMax - fval fromMin) \<noteq> 0)
       \<and> (fne fromMax fromMin \<and> fne toMax toMin \<and> finite_inputs
            \<and> no_overflow (fval value) (fval fromMin) (fval fromMax) (fval toMin) (fval toMax)
            \<and> no_rounding (fval value) (fval fromMin) (fval fromMax) (fval toMin) (fval toMax) \<longrightarrow>
            fval out = map_range_exact (fval value) (fval fromMin) (fval fromMax)
                         (fval toMin) (fval toMax))"
proof -
  have eq: "svm_node_map_range kg stack value_offset fromMin_offset fromMax_offset offset
              = (stack(uint4_w node1 := out), offset + 1)"
    unfolding out_def node1_def by (simp add: svm_node_map_range_eq)
  have deg: "out = Zero False" if "feq fromMax fromMin \<or> feq toMax toMin"
    using that unfolding out_def node1_def fromMin_def fromMax_def toMin_def toMax_def
    by (auto simp: svm_node_map_range_eq feq_def)
  have gen: "out = fadd toMin (fmul (fdiv (fsub value fromMin) (fsub fromMax fromMin))
                                    (fsub toMax toMin))"
    if "fne fromMax fromMin" "fne toMax toMin"
    using that
    unfolding out_def node1_def value_def fromMin_def fromMax_def toMin_def toMax_def
    by (simp add: svm_node_map_range_eq)
  have dv: "\<not> is_zero (fsub fromMax fromMin)"
    if "fne fromMax fromMin" "valid fromMin" "valid fromMax"
    using that by (intro fsub_not_zero)
  have num: "finite_float out
            \<and> fval out = map_range_rounded (fval value) (fval fromMin) (fval fromMax)
                            (fval toMin) (fval toMax)
            \<and> rne (fval fromMax - fval fromMin) \<noteq> 0"
    if "fne fromMax fromMin" "fne toMax toMin" "finite_inputs"
      "no_overflow (fval value) (fval fromMin) (fval fromMax) (fval toMin) (fval toMax)"
  proof -
    from that(3) have f: "finite_float value" "finite_float fromMin" "finite_float fromMax"
      "finite_float toMin" "finite_float toMax"
      by (simp_all add: finite_inputs_def)
    show ?thesis
      unfolding gen[OF that(1,2)] by (rule map_range_value[OF f that(1) that(4)])
  qed
  have ex: "fval out = map_range_exact (fval value) (fval fromMin) (fval fromMax)
                         (fval toMin) (fval toMax)"
    if "fne fromMax fromMin" "fne toMax toMin" "finite_inputs"
      "no_overflow (fval value) (fval fromMin) (fval fromMax) (fval toMin) (fval toMax)"
      "no_rounding (fval value) (fval fromMin) (fval fromMax) (fval toMin) (fval toMax)"
    using num[OF that(1-4)] no_rounding_exact[OF that(5)] by simp
  from eq deg gen dv num ex show ?thesis by blast
qed

theorem svm_node_map_range_computes_witness:
  "fval (fst (svm_node_map_range map_range_kg
            (map_range_stack (Fin 3) (Fin 1) (Fin 5) (Fin 2) (Fin 4)) 0 1 2 0) 5) = 3
   \<and> map_range_exact 3 1 5 2 4 = 3
   \<and> fval (fst (svm_node_map_range map_range_kg
            (map_range_stack (Fin 1) (Zero False) (Fin 3) (Zero False) (Fin 1)) 0 1 2 0) 5)
       = 11184811 / 33554432
   \<and> map_range_rounded 1 0 3 0 1 = 11184811 / 33554432
   \<and> fst (svm_node_map_range map_range_kg
            (map_range_stack (Fin 1) (Fin 1) (Fin 1) (Zero False) (Fin 1)) 0 1 2 0) 5
       = Zero False
   \<and> \<not> is_zero (fsub (Fin 3) (Zero False))"
proof -
  have r: "map_range_rounded 3 1 5 2 4 = 3" "map_range_rounded 1 0 3 0 1 = 11184811 / 33554432"
    by (simp_all add: map_range_rounded_def)
  have o: "no_overflow 3 1 5 2 4" "no_overflow 1 0 3 0 1"
    by (simp_all add: no_overflow_def r)
  have n: "no_rounding 3 1 5 2 4"
    by (simp add: no_rounding_def)
  have e: "map_range_exact 3 1 5 2 4 = 3"
    by (simp add: map_range_exact_def)
  note t1 = svm_node_map_range_computes[where kg = map_range_kg and offset = 0
        and stack = "map_range_stack (Fin 3) (Fin 1) (Fin 5) (Fin 2) (Fin 4)"
        and value_offset = 0 and fromMin_offset = 1 and fromMax_offset = 2]
  note t2 = svm_node_map_range_computes[where kg = map_range_kg and offset = 0
        and stack = "map_range_stack (Fin 1) (Zero False) (Fin 3) (Zero False) (Fin 1)"
        and value_offset = 0 and fromMin_offset = 1 and fromMax_offset = 2]
  note t3 = svm_node_map_range_computes[where kg = map_range_kg and offset = 0
        and stack = "map_range_stack (Fin 1) (Fin 1) (Fin 1) (Zero False) (Fin 1)"
        and value_offset = 0 and fromMin_offset = 1 and fromMax_offset = 2]
  have a: "fval (fst (svm_node_map_range map_range_kg
            (map_range_stack (Fin 3) (Fin 1) (Fin 5) (Fin 2) (Fin 4)) 0 1 2 0) 5) = 3"
    using t1[THEN conjunct2, THEN conjunct2, THEN conjunct2, THEN conjunct2, THEN conjunct2] o n e
    by (simp add: map_range_kg_def map_range_stack_def finite_float_def)
  have b: "fval (fst (svm_node_map_range map_range_kg
            (map_range_stack (Fin 1) (Zero False) (Fin 3) (Zero False) (Fin 1)) 0 1 2 0) 5)
       = 11184811 / 33554432"
    using t2[THEN conjunct2, THEN conjunct2, THEN conjunct2, THEN conjunct2, THEN conjunct1] o r
    by (simp add: map_range_kg_def map_range_stack_def finite_float_def)
  have c: "fst (svm_node_map_range map_range_kg
            (map_range_stack (Fin 1) (Fin 1) (Fin 1) (Zero False) (Fin 1)) 0 1 2 0) 5
       = Zero False"
    using t3[THEN conjunct2, THEN conjunct1]
    by (simp add: map_range_kg_def map_range_stack_def feq_def)
  have d: "\<not> is_zero (fsub (Fin 3) (Zero False))"
    using t2[THEN conjunct2, THEN conjunct2, THEN conjunct2, THEN conjunct1]
    by (simp add: map_range_kg_def map_range_stack_def)
  from a b c d e r show ?thesis by simp
qed

text \<open>
  C1 as stated fails when an operation has to round. With \<open>fromMin = 0\<close>,
  \<open>fromMax = value = 1\<close>, \<open>toMin = 2\<^sup>3\<^sup>0\<close> and \<open>toMax = 1\<close>, all of them floats and both
  intervals non-degenerate, the value of the interpolation formula is \<open>1\<close> and the node
  stores \<open>+0\<close>.
\<close>

theorem map_range_exact_counterexample:
  "finite_float (Fin 1) \<and> finite_float (Zero False) \<and> finite_float (Fin 1073741824)
   \<and> fne (Fin 1) (Zero False) \<and> fne (Fin 1) (Fin 1073741824)
   \<and> fst (svm_node_map_range map_range_kg
            (map_range_stack (Fin 1) (Zero False) (Fin 1) (Fin 1073741824) (Fin 1)) 0 1 2 0) 5
       = Zero False
   \<and> map_range_exact (fval (Fin 1)) (fval (Zero False)) (fval (Fin 1)) (fval (Fin 1073741824))
        (fval (Fin 1)) = 1
   \<and> fval (Zero False) \<noteq> 1"
proof -
  have m: "rne (- 1073741823) = - 1073741824" "rne (- 1073741824) = - 1073741824"
    by (simp_all only: rne_minus rne_2p30 rne_2p30m1)
  have r: "round32 1 = Fin 1" by (rule round32_valid) simp
  have "fst (svm_node_map_range map_range_kg
            (map_range_stack (Fin 1) (Zero False) (Fin 1) (Fin 1073741824) (Fin 1)) 0 1 2 0) 5
       = Zero False"
    by (simp add: svm_node_map_range_eq map_range_kg_def map_range_stack_def fsub_def feq_def r)
      (simp add: round32_def m)
  then show ?thesis by (simp add: finite_float_def map_range_exact_def)
qed

lemma fsub_self_zero:
  assumes "is_finite a" "is_finite b" "feq a b"
  shows "is_zero (fsub a b)"
  using assms by (cases a; cases b) (simp_all add: feq_def fsub_def round32_def)

lemma fsub_finite_cases:
  assumes "is_finite a" "is_finite b"
  shows "fsub a b \<noteq> NaN"
  using assms by (cases a; cases b) (simp_all add: fsub_def round32_def Let_def)

lemma fdiv_zero_num:
  assumes "is_zero n" "d \<noteq> NaN" "\<not> is_zero d"
  shows "is_zero (fdiv n d)"
  using assms by (cases n; cases d) simp_all

lemma fmul_zero_left:
  assumes "is_zero n" "is_finite t"
  shows "is_zero (fmul n t)"
  using assms by (cases n; cases t) simp_all

lemma fadd_zero_right:
  assumes "is_zero z" "is_finite a"
  shows "feq (fadd a z) a"
  using assms by (cases a; cases z) (simp_all add: feq_def)

lemma fsub_feq_left:
  assumes "is_finite a" "is_finite b" "is_finite c" "feq a b" "fne b c"
  shows "fsub a c = fsub b c"
  using assms by (cases a; cases b; cases c) (simp_all add: feq_def fsub_def)

lemma fadd_fsub_exact:
  assumes "valid a" "valid b" "is_finite a" "is_finite b" "fne b a"
    and "is_finite (fsub b a)" and "fval (fsub b a) = fval b - fval a"
  shows "feq (fadd a (fsub b a)) b"
proof (cases a)
  case (Fin x)
  note a = this
  show ?thesis
  proof (cases b)
    case (Fin y)
    with a assms have ne: "y - x \<noteq> 0" by simp
    from assms(6,7) a Fin ne have "fsub (Fin y) (Fin x) = Fin (y - x)"
      by (cases "fsub (Fin y) (Fin x)") simp_all
    then show ?thesis using a Fin assms(2) by (simp add: round32_valid feq_def)
  qed (use assms a in \<open>simp_all add: fsub_def feq_def round32_def\<close>)
qed (use assms in \<open>cases b; simp add: fsub_def feq_def\<close>)+

text \<open>
  C5, as the code has it. Single-precision rounding decides the boundaries. For finite
  inputs with \<^verbatim>\<open>fromMax != fromMin\<close> and \<^verbatim>\<open>toMax != toMin\<close>:
  at \<^verbatim>\<open>value == fromMin\<close> the output compares equal to \<open>toMin\<close> provided \<open>toMax - toMin\<close>
  does not overflow; at \<^verbatim>\<open>value == fromMax\<close>, provided \<open>fromMax - fromMin\<close> does not overflow,
  the output is the rounded sum \<open>toMin + (toMax - toMin)\<close> of the rounded difference, and it
  compares equal to \<open>toMax\<close> whenever that difference is computed without rounding error.
\<close>

theorem map_range_boundaries:
  fixes kg :: KernelGlobals and stack :: "uint \<Rightarrow> float"
    and value_offset fromMin_offset fromMax_offset :: uint and offset :: int
  defines "node1 \<equiv> svm_nodes kg offset"
  defines "value \<equiv> stack value_offset"
    and "fromMin \<equiv> stack fromMin_offset"
    and "fromMax \<equiv> stack fromMax_offset"
    and "toMin \<equiv> stack (uint4_y node1)"
    and "toMax \<equiv> stack (uint4_z node1)"
  defines "out \<equiv> fst (svm_node_map_range kg stack value_offset fromMin_offset fromMax_offset offset)
                     (uint4_w node1)"
  assumes v: "valid value" "valid fromMin" "valid fromMax" "valid toMin" "valid toMax"
    and f: "is_finite value" "is_finite fromMin" "is_finite fromMax" "is_finite toMin"
      "is_finite toMax"
    and ne: "fne fromMax fromMin" "fne toMax toMin"
  shows "(feq value fromMin \<and> is_finite (fsub toMax toMin) \<longrightarrow> feq out toMin)
       \<and> (feq value fromMax \<and> is_finite (fsub fromMax fromMin) \<longrightarrow>
            out = fadd toMin (fsub toMax toMin))
       \<and> (feq value fromMax \<and> is_finite (fsub fromMax fromMin) \<and> is_finite (fsub toMax toMin)
            \<and> fval (fsub toMax toMin) = fval toMax - fval toMin \<longrightarrow> feq out toMax)"
proof -
  have out: "out = fadd toMin (fmul (fdiv (fsub value fromMin) (fsub fromMax fromMin))
                                    (fsub toMax toMin))"
    using ne unfolding out_def node1_def value_def fromMin_def fromMax_def toMin_def toMax_def
    by (simp add: svm_node_map_range_eq)
  have dnz: "\<not> is_zero (fsub fromMax fromMin)" by (rule fsub_not_zero[OF v(3) v(2) ne(1)])
  have dnn: "fsub fromMax fromMin \<noteq> NaN" by (rule fsub_finite_cases[OF f(3) f(2)])
  have lo: "feq out toMin" if "feq value fromMin" "is_finite (fsub toMax toMin)"
  proof -
    have "is_zero (fsub value fromMin)" by (rule fsub_self_zero[OF f(1) f(2) that(1)])
    then have "is_zero (fdiv (fsub value fromMin) (fsub fromMax fromMin))"
      using dnn dnz by (rule fdiv_zero_num)
    then have "is_zero (fmul (fdiv (fsub value fromMin) (fsub fromMax fromMin)) (fsub toMax toMin))"
      using that(2) by (rule fmul_zero_left)
    then show ?thesis unfolding out using f(4) by (rule fadd_zero_right)
  qed
  have hi: "out = fadd toMin (fsub toMax toMin)"
    if "feq value fromMax" "is_finite (fsub fromMax fromMin)"
  proof -
    have n: "fsub value fromMin = fsub fromMax fromMin"
      by (rule fsub_feq_left[OF f(1) f(3) f(2) that(1) ne(1)])
    have vd: "valid (fsub fromMax fromMin)" by (rule valid_fsub[OF v(3) v(2)])
    from that(2) dnz obtain q where q: "fsub fromMax fromMin = Fin q"
      by (cases "fsub fromMax fromMin") simp_all
    from vd have "valid (Fin q)" unfolding q .
    then have "fdiv (Fin q) (Fin q) = Fin 1" by (rule fdiv_self)
    then have "fdiv (fsub fromMax fromMin) (fsub fromMax fromMin) = Fin 1"
      unfolding q .
    moreover have "valid (fsub toMax toMin)" by (rule valid_fsub[OF v(5) v(4)])
    ultimately show ?thesis unfolding out n by (simp add: fmul_one)
  qed
  have ex: "feq out toMax"
    if "feq value fromMax" "is_finite (fsub fromMax fromMin)" "is_finite (fsub toMax toMin)"
      "fval (fsub toMax toMin) = fval toMax - fval toMin"
    unfolding hi[OF that(1,2)]
    by (rule fadd_fsub_exact[OF v(4) v(5) f(4) f(5) ne(2) that(3) that(4)])
  from lo hi ex show ?thesis by blast
qed

theorem map_range_boundaries_witness:
  "valid (Fin 1) \<and> valid (Zero False) \<and> is_finite (Fin 1) \<and> is_finite (Zero False)
   \<and> fne (Fin 1) (Zero False)
   \<and> feq (Fin 1) (Fin 1) \<and> is_finite (fsub (Fin 1) (Zero False))
   \<and> fval (fsub (Fin 1) (Zero False)) = fval (Fin 1) - fval (Zero False)
   \<and> fst (svm_node_map_range map_range_kg
            (map_range_stack (Fin 1) (Zero False) (Fin 1) (Zero False) (Fin 1)) 0 1 2 0) 5
       = fadd (Zero False) (fsub (Fin 1) (Zero False))
   \<and> feq (fst (svm_node_map_range map_range_kg
            (map_range_stack (Fin 1) (Zero False) (Fin 1) (Zero False) (Fin 1)) 0 1 2 0) 5) (Fin 1)
   \<and> feq (Zero False) (Zero False)
   \<and> feq (fst (svm_node_map_range map_range_kg
            (map_range_stack (Zero False) (Zero False) (Fin 1) (Zero False) (Fin 1)) 0 1 2 0) 5)
         (Zero False)"
proof -
  have v: "valid (Zero False)" "valid (Fin 1)" by simp_all
  show ?thesis
    using map_range_boundaries[where kg = map_range_kg and offset = 0
        and stack = "map_range_stack (Fin 1) (Zero False) (Fin 1) (Zero False) (Fin 1)"
        and value_offset = 0 and fromMin_offset = 1 and fromMax_offset = 2]
      map_range_boundaries[where kg = map_range_kg and offset = 0
        and stack = "map_range_stack (Zero False) (Zero False) (Fin 1) (Zero False) (Fin 1)"
        and value_offset = 0 and fromMin_offset = 1 and fromMax_offset = 2]
    by (simp add: map_range_kg_def map_range_stack_def fsub_def feq_def)
qed

text \<open>
  C5 as stated fails at \<^verbatim>\<open>value == fromMax\<close>. With \<open>fromMin = 0\<close>, \<open>fromMax = value = 1\<close>,
  \<open>toMin = 2\<^sup>3\<^sup>0\<close> and \<open>toMax = 1\<close>, all of them floats, the difference
  \<open>1 - 2\<^sup>3\<^sup>0\<close> rounds to \<open>-2\<^sup>3\<^sup>0\<close> and the node stores \<open>2\<^sup>3\<^sup>0 + 1 * (-2\<^sup>3\<^sup>0) = 0\<close>, which is
  not \<open>toMax\<close>.
\<close>

theorem map_range_boundary_counterexample:
  "valid (Fin 1) \<and> valid (Zero False) \<and> valid (Fin 1073741824)
   \<and> fne (Fin 1) (Zero False) \<and> fne (Fin 1) (Fin 1073741824)
   \<and> feq (Fin 1) (Fin 1)
   \<and> fst (svm_node_map_range map_range_kg
            (map_range_stack (Fin 1) (Zero False) (Fin 1) (Fin 1073741824) (Fin 1)) 0 1 2 0) 5
       = Zero False
   \<and> fne (Zero False) (Fin 1)"
proof -
  have m: "rne (- 1073741823) = - 1073741824" "rne (- 1073741824) = - 1073741824"
    by (simp_all only: rne_minus rne_2p30 rne_2p30m1)
  have r: "round32 1 = Fin 1" by (rule round32_valid) simp
  show ?thesis
    by (simp add: svm_node_map_range_eq map_range_kg_def map_range_stack_def fsub_def feq_def r)
      (simp add: round32_def m)
qed

section \<open>Palette callbacks\<close>

lemma findindex_from_miss: "findindex_from l a n = -1 \<longleftrightarrow> a \<notin> fst ` set l" if "0 \<le> n"
  using that by (induction l a n rule: findindex_from.induct) auto

lemma BLI_findindex_miss:
  "BLI_findindex l v = -1 \<longleftrightarrow> (\<forall>a. v = Some a \<longrightarrow> a \<notin> fst ` set l)"
  by (cases v) (simp_all add: BLI_findindex_def findindex_from_miss)

text \<open>
  C8. When the color referred to is not in the color list of the palette, the remove
  operation appends an error report and returns the palette and the reference as they were;
  when it is in the list, the color leaves the list (the other colors stay, in order), the
  report list is unchanged and the reference has lost its type and its owner.
\<close>

theorem rna_Palette_color_remove_spec:
  "((\<forall>a. data color_ptr = Some a \<longrightarrow> a \<notin> fst ` set (colors palette)) \<longrightarrow>
      rna_Palette_color_remove palette reports color_ptr
        = (palette, reports @ [(RPT_ERROR, not_contained_message palette)], color_ptr))
   \<and> (data color_ptr = Some a \<and> a \<in> fst ` set (colors palette) \<longrightarrow>
        (\<exists>palette' color_ptr'.
           rna_Palette_color_remove palette reports color_ptr = (palette', reports, color_ptr')
           \<and> colors palette' = filter (\<lambda>link. fst link \<noteq> a) (colors palette)
           \<and> a \<notin> fst ` set (colors palette')
           \<and> rna_type color_ptr' = None \<and> id_data color_ptr' = None))"
  using BLI_findindex_miss[of "colors palette" "data color_ptr"]
  by (auto simp: rna_Palette_color_remove_def Let_def BKE_reportf_def
      BKE_palette_color_remove_def RNA_POINTER_INVALIDATE_def)

theorem rna_Palette_color_remove_spec_witness:
  "rna_Palette_color_remove two_colors [] (color_ref 12)
     = (two_colors, [(RPT_ERROR, ''Palette '' @ [CHR 0x27] @ ''Palette'' @ [CHR 0x27]
                                   @ '' does not contain color given'')], color_ref 12)
   \<and> (\<exists>palette' color_ptr'.
         rna_Palette_color_remove two_colors [] (color_ref 11) = (palette', [], color_ptr')
         \<and> colors palette' = [(10, \<lparr>info = ''Red''\<rparr>)]
         \<and> rna_type color_ptr' = None \<and> id_data color_ptr' = None)"
  using rna_Palette_color_remove_spec[where color_ptr = "color_ref 12" and palette = two_colors
        and reports = "[]" and a = 0]
    rna_Palette_color_remove_spec[where color_ptr = "color_ref 11" and palette = two_colors
        and reports = "[]" and a = 11]
  by (simp add: two_colors_def color_ref_def not_contained_message_def) blast

text \<open>
  C9 fails on the code. Setting the name through a reference to the second color of the
  palette, while the first one is active, renames the first color and leaves the second as
  it was, whatever the string helpers do; with no active color (\<^verbatim>\<open>active_color = -1\<close>) it
  dereferences \<^verbatim>\<open>NULL\<close>.
\<close>

theorem rna_PaletteColor_info_set_renames_active:
  "rna_PaletteColor_info_set api two_colors (color_ref 11) ''Green''
     = Inr (two_colors\<lparr>colors :=
              [(10, \<lparr>info = uniquename api [''Blue''] ''Color'' CHR ''.'' 64
                               (strncpy_utf8 api 64 ''Green'')\<rparr>),
               (11, \<lparr>info = ''Blue''\<rparr>)]\<rparr>)
   \<and> rna_PaletteColor_info_set api (two_colors\<lparr>active_color := -1\<rparr>) (color_ref 11) ''Green''
     = Inl NullDereference"
  by (simp add: rna_PaletteColor_info_set_def two_colors_def color_ref_def BLI_findlink_def)

section \<open>Grease-pencil operators\<close>

lemma pass_step_trans: "pass_step b c \<Longrightarrow> pass_step a b \<Longrightarrow> pass_step a c"
  by (induction rule: pass_step.induct) (auto intro: pass_step.intros)

lemma pass_step_then_do:
  assumes "pass_step w (final m)" and "\<And>w'. pass_step w' (final (f w'))"
  shows "pass_step w (final (then_do m f))"
proof (cases m)
  case (Finished w1)
  with assms(1) have "pass_step w w1" by simp
  with assms(2)[of w1] show ?thesis using Finished by (auto intro: pass_step_trans)
next
  case (Crashed w1)
  with assms(1) show ?thesis by simp
qed

lemma chain_verdict_Emit_not_picked:
  "chain_verdict h ob qb qe col ty rlc = Emit \<Longrightarrow> \<not> picked rlc"
  by (auto simp: chain_verdict_def split: if_splits)

lemma generate_loop_step:
  assumes "generate_loop h ob gpf qb qe m col ty (length pre) cs g t = (cs', g', t')"
    and "render_buffer_shared w = Some rb" and "chains rb = pre @ cs"
    and "gpencil w = g" and "events w = t"
  shows "pass_step w (w\<lparr>render_buffer_shared := Some (rb\<lparr>chains := pre @ cs'\<rparr>),
                        gpencil := g', events := t'\<rparr>)"
  using assms
proof (induction cs arbitrary: pre g t w rb cs' g' t')
  case Nil
  then have "w\<lparr>render_buffer_shared := Some (rb\<lparr>chains := pre @ cs'\<rparr>),
               gpencil := g', events := t'\<rparr> = w"
    by simp
  then show ?case by (simp add: ps_refl)
next
  case (Cons rlc rest)
  show ?case
  proof (cases "chain_verdict h ob qb qe col ty rlc = Emit")
    case False
    with Cons.prems(1) obtain rest' where
      r: "generate_loop h ob gpf qb qe m col ty (length (pre @ [rlc])) rest g t = (rest', g', t')"
      and c: "cs' = rlc # rest'"
      by (auto split: prod.splits)
    have "pass_step w (w\<lparr>render_buffer_shared := Some (rb\<lparr>chains := (pre @ [rlc]) @ rest'\<rparr>),
                          gpencil := g', events := t'\<rparr>)"
      by (rule Cons.IH[OF r Cons.prems(2)]) (use Cons.prems in simp_all)
    then show ?thesis by (simp add: c)
  next
    case True
    define rlc' where "rlc' = rlc\<lparr>picked := True\<rparr>"
    define count where "count = lanpr_count_chain h rlc'"
    define g1 where "g1 = fst (BKE_gpencil_add_stroke h g gpf 0 count 1)"
    define gps where "gps = snd (BKE_gpencil_add_stroke h g gpf 0 count 1)"
    define g3 where "g3 = gps_set_mat_nr h
        (BKE_gpencil_stroke_add_points h g1 gps (concat (map stroke_point (chain rlc'))) count)
        gps m"
    define rb1 where "rb1 = rb\<lparr>chains := pre @ rlc' # rest\<rparr>"
    define w1 where "w1 = w\<lparr>render_buffer_shared := Some rb1, gpencil := g3,
                            events := AddStroke (length pre) # SetPicked (length pre) # t\<rparr>"
    from True Cons.prems(1) obtain rest' where
      r: "generate_loop h ob gpf qb qe m col ty (length (pre @ [rlc'])) rest g3
            (AddStroke (length pre) # SetPicked (length pre) # t) = (rest', g', t')"
      and c: "cs' = rlc' # rest'"
      by (auto simp: Let_def rlc'_def count_def g1_def gps_def g3_def split: prod.splits)
    have np: "\<not> picked (chains rb ! length pre)"
      using chain_verdict_Emit_not_picked[OF True] Cons.prems(3) by simp
    have "pass_step w
            (w\<lparr>render_buffer_shared :=
                 Some (rb\<lparr>chains := (chains rb)[length pre :=
                                         (chains rb ! length pre)\<lparr>picked := True\<rparr>]\<rparr>),
               gpencil := g3,
               events := AddStroke (length pre) # SetPicked (length pre) # events w\<rparr>)"
      by (rule ps_emit[OF ps_refl Cons.prems(2) _ np]) (simp add: Cons.prems(3))
    then have s1: "pass_step w w1"
      using Cons.prems(3,5) by (simp add: w1_def rb1_def rlc'_def)
    have "pass_step w1 (w1\<lparr>render_buffer_shared := Some (rb1\<lparr>chains := (pre @ [rlc']) @ rest'\<rparr>),
                            gpencil := g', events := t'\<rparr>)"
      by (rule Cons.IH[OF r]) (simp_all add: w1_def rb1_def)
    then have "pass_step w1 (w\<lparr>render_buffer_shared := Some (rb\<lparr>chains := pre @ cs'\<rparr>),
                              gpencil := g', events := t'\<rparr>)"
      by (simp add: w1_def rb1_def c)
    then show ?thesis using s1 by (rule pass_step_trans)
  qed
qed

lemma generate_step:
  "pass_step w (lanpr_generate_gpencil_from_chain h w ob gpl gpf qb qe m col ty)"
proof (cases "render_buffer_shared w")
  case None
  then show ?thesis by (simp add: lanpr_generate_gpencil_from_chain_def ps_refl)
next
  case (Some rb)
  show ?thesis
  proof (cases "master_mode (eval_scene w) \<noteq> LANPR_MASTER_MODE_SOFTWARE")
    case True
    then show ?thesis using Some by (simp add: lanpr_generate_gpencil_from_chain_def ps_refl)
  next
    case False
    obtain cs g t where
      l: "generate_loop h ob gpf qb qe m col ty (length ([]::LANPR_RenderLineChain list))
            (chains rb) (gpencil w) (events w) = (cs, g, t)"
      by (cases "generate_loop h ob gpf qb qe m col ty 0 (chains rb) (gpencil w) (events w)") auto
    have "pass_step w (w\<lparr>render_buffer_shared := Some (rb\<lparr>chains := [] @ cs\<rparr>),
                          gpencil := g, events := t\<rparr>)"
      by (rule generate_loop_step[OF l Some]) simp_all
    then show ?thesis using Some False l
      by (simp add: lanpr_generate_gpencil_from_chain_def)
  qed
qed

lemma emit_to_target_step:
  "pass_step w (final (emit_to_target h w frame gpobj layer ob qb qe m col ty))"
proof -
  define gl where "gl = (case BKE_gpencil_layer_get_index h (gpencil w) (ob_data gpobj) layer of
                           Some gpl \<Rightarrow> (gpencil w, gpl)
                         | None \<Rightarrow> BKE_gpencil_layer_addnew h (gpencil w) (ob_data gpobj))"
  define gf where "gf = BKE_gpencil_layer_getframe h (fst gl) (snd gl) frame"
  define w2 where "w2 = w\<lparr>gpencil := fst gf\<rparr>"
  define w3 where "w3 = (if \<not> gpf_flag_lanpr_cleared h (fst gf) (snd gf)
                         then w2\<lparr>gpencil := gpf_set_flag_lanpr_cleared h
                                  (BKE_gpencil_free_strokes h (fst gf) (snd gf)) (snd gf) True\<rparr>
                         else w2)"
  define w4 where "w4 = lanpr_generate_gpencil_from_chain h w3 ob (snd gl) (snd gf) qb qe m col ty"
  have e: "emit_to_target h w frame gpobj layer ob qb qe m col ty =
             (if gpf_strokes_first h (fst gf) (snd gf) \<and> render_buffer_shared w2 = None
              then Crashed w2
              else if gpf_strokes_first h (fst gf) (snd gf)
                      \<and> \<not> gpencil_overwrite (the (render_buffer_shared w2))
              then Finished w2
              else Finished (w4\<lparr>events := TagUpdate (ob_data gpobj) # events w4\<rparr>))"
    unfolding emit_to_target_def Let_def split_beta gl_def[symmetric] gf_def[symmetric]
      w2_def[symmetric] w3_def[symmetric] w4_def[symmetric] ..
  have s2: "pass_step w w2" unfolding w2_def by (rule ps_gp[OF ps_refl])
  have "pass_step w2 w3" unfolding w3_def by (auto intro: ps_gp[OF ps_refl] ps_refl)
  with s2 have s3: "pass_step w w3" by (rule pass_step_trans[rotated])
  have "pass_step w3 w4" unfolding w4_def by (rule generate_step)
  with s3 have s4: "pass_step w w4" by (rule pass_step_trans[rotated])
  then have s5: "pass_step w (w4\<lparr>events := TagUpdate (ob_data gpobj) # events w4\<rparr>)"
    by (rule ps_tag)
  show ?thesis unfolding e using s2 s5 by simp
qed

lemma update_modifiers_step:
  "pass_step w (final (update_modifiers h frame target_only ob mds w))"
proof (induction mds arbitrary: w)
  case Nil
  then show ?case by (simp add: ps_refl)
next
  case (Cons md rest)
  have IH: "\<And>w. pass_step w (final (update_modifiers h frame target_only ob rest w))"
    by (rule Cons.IH)
  show ?case
  proof (cases md)
    case OtherModifier
    then show ?thesis by (simp add: IH)
  next
    case (FeatureLineModifier tg ly lb le um mat ty)
    show ?thesis
    proof (cases tg)
      case None
      then show ?thesis using FeatureLineModifier by (simp add: IH)
    next
      case (Some gpobj)
      show ?thesis unfolding FeatureLineModifier Some
        by (simp add: IH pass_step_then_do emit_to_target_step)
    qed
  qed
qed

lemma update_objects_step:
  "pass_step w (final (update_objects h frame target_only obs w))"
  by (induction obs arbitrary: w)
    (auto intro!: ps_refl pass_step_then_do update_modifiers_step)

lemma recursive_step:
  "pass_step w (final (lanpr_update_gp_strokes_recursive h col frame source_only target_only w))"
  "pass_step w (final (update_children_recursive h cols frame source_only target_only w))"
proof (induction h col frame source_only target_only w and h cols frame source_only target_only w
    rule: lanpr_update_gp_strokes_recursive_update_children_recursive.induct)
  case (1 h col_gobject col_children col_lanpr frame source_only target_only w)
  then show ?case
    by (auto split: option.splits
        intro!: pass_step_then_do update_modifiers_step update_objects_step)
next
  case (2 h frame source_only target_only w)
  then show ?case by (simp add: ps_refl)
next
  case (3 h cc rest frame source_only target_only w)
  then show ?case by (auto intro!: pass_step_then_do)
qed

lemma collection_step:
  "pass_step w (final (lanpr_update_gp_strokes_collection h col frame this_only target_only w))"
  "pass_step w (final (update_children_collection h cols frame this_only target_only w))"
proof (induction h col frame this_only target_only w and h cols frame this_only target_only w
    rule: lanpr_update_gp_strokes_collection_update_children_collection.induct)
  case (1 h col_gobject col_children col_lanpr frame this_only target_only w)
  then show ?case
    by (auto simp: Let_def intro!: pass_step_then_do emit_to_target_step ps_refl)
next
  case (2 h frame this_only target_only w)
  then show ?case by (simp add: ps_refl)
next
  case (3 h cc rest frame this_only target_only w)
  then show ?case by (auto intro!: pass_step_then_do)
qed

lemma final_then_do:
  assumes "P (final m)" and "\<And>w'. m = Finished w' \<Longrightarrow> P (final (f w'))"
  shows "P (final (then_do m f))"
  using assms by (cases m) simp_all

lemma pass_step_compute_calls:
  "pass_step w w' \<Longrightarrow> compute_calls (events w') = compute_calls (events w)"
  by (induction rule: pass_step.induct) simp_all

lemma pass_step_emitted:
  "pass_step w w' \<Longrightarrow> emitted (events w) = since_clear (events w)
   \<Longrightarrow> emitted (events w') = since_clear (events w')"
  by (induction rule: pass_step.induct) simp_all

lemma chain_picked_frame [simp]:
  "chain_picked (w\<lparr>gpencil := g\<rparr>) = chain_picked w"
  "chain_picked (w\<lparr>events := t\<rparr>) = chain_picked w"
  by (rule ext, simp add: chain_picked_def)+

lemma pass_step_inv: "pass_step w w' \<Longrightarrow> pass_inv w \<Longrightarrow> pass_inv w'"
proof (induction rule: pass_step.induct)
  case (ps_refl w)
  then show ?case .
next
  case (ps_gp w w' g)
  then show ?case by (simp add: pass_inv_def)
next
  case (ps_tag w w' p)
  then show ?case by (simp add: pass_inv_def log_ok_def)
next
  case (ps_emit w w' rb i g)
  from ps_emit have inv: "pass_inv w'" by simp
  have ni: "i \<notin> set (since_clear (events w'))"
  proof
    assume "i \<in> set (since_clear (events w'))"
    with inv have "chain_picked w' i" by (auto simp: pass_inv_def list_all_iff)
    with ps_emit.hyps show False by (simp add: chain_picked_def)
  qed
  have keep: "chain_picked
                (w'\<lparr>render_buffer_shared :=
                      Some (rb\<lparr>chains := (chains rb)[i := (chains rb ! i)\<lparr>picked := True\<rparr>]\<rparr>),
                    gpencil := g, events := AddStroke i # SetPicked i # events w'\<rparr>) j"
    if "chain_picked w' j \<or> j = i" for j
    using that ps_emit.hyps by (auto simp: chain_picked_def nth_list_update)
  show ?case
    using inv ni keep unfolding pass_inv_def log_ok_def
    by (auto simp: list_all_iff)
qed

lemma emitted_once_distinct: "emitted_once t \<Longrightarrow> distinct (since_clear t)"
  by (induction t rule: since_clear.induct) simp_all

lemma inv_after_clear:
  assumes "log_ok (events w)"
  shows "pass_inv (lanpr_chain_clear_picked_flag w)"
  using assms by (simp add: pass_inv_def log_ok_def lanpr_chain_clear_picked_flag_def)

lemma log_ok_compute:
  "log_ok (events w) \<Longrightarrow> log_ok (events (lanpr_compute_feature_lines_internal h w))"
  by (simp add: log_ok_def lanpr_compute_feature_lines_internal_def)

lemma passes_inv:
  assumes "pass_inv w"
  shows "pass_inv (final (then_do
           (lanpr_update_gp_strokes_recursive h col frame source_only target_only w)
           (lanpr_update_gp_strokes_collection h col' frame this_only target_only')))"
proof (rule final_then_do)
  show "pass_inv (final (lanpr_update_gp_strokes_recursive h col frame source_only target_only w))"
    by (rule pass_step_inv[OF recursive_step(1) assms])
next
  fix w' assume "lanpr_update_gp_strokes_recursive h col frame source_only target_only w = Finished w'"
  then have "pass_step w w'" using recursive_step(1)[of w h col frame source_only target_only] by simp
  then have "pass_inv w'" using assms by (rule pass_step_inv)
  then show "pass_inv (final (lanpr_update_gp_strokes_collection h col' frame this_only target_only' w'))"
    by (rule pass_step_inv[OF collection_step(1)])
qed

lemma passes_step:
  "pass_step w (final (then_do
           (lanpr_update_gp_strokes_recursive h col frame source_only target_only w)
           (lanpr_update_gp_strokes_collection h col' frame this_only target_only')))"
  by (rule pass_step_then_do) (rule recursive_step collection_step)+

lemma then_do_assoc: "then_do (then_do m f) g = then_do m (\<lambda>w. then_do (f w) g)"
  by (cases m) simp_all

lemma exec_shapes:
  "lanpr_update_gp_strokes_exec h w = update_shape h None None w"
  "lanpr_update_gp_target_exec h w = update_shape h None (ctx_active_object w) w"
  "lanpr_update_gp_source_exec h w = update_shape h (ctx_active_object w) None w"
  by (simp_all add: lanpr_update_gp_strokes_exec_def lanpr_update_gp_target_exec_def
      lanpr_update_gp_source_exec_def update_shape_def absent_or_stale_def then_do_assoc Let_def)

lemma clear_flags_events [simp]:
  "events (lanpr_clear_gp_lanpr_flags h w frame) = events w"
  "render_buffer_shared (lanpr_clear_gp_lanpr_flags h w frame) = render_buffer_shared w"
  by (simp_all add: lanpr_clear_gp_lanpr_flags_def)

lemma update_shape_compute_calls:
  "compute_calls (events (final (update_shape h so tg w)))
     = compute_calls (events w) + (if absent_or_stale w (cfra (ctx_scene w)) then 1 else 0)"
proof -
  define w1 where "w1 = (if absent_or_stale w (cfra (ctx_scene w))
                         then lanpr_compute_feature_lines_internal h w else w)"
  define w2 where "w2 = lanpr_chain_clear_picked_flag w1"
  define m where "m = then_do
      (lanpr_update_gp_strokes_recursive h (master_collection (ctx_scene w)) (cfra (ctx_scene w)) so tg w2)
      (lanpr_update_gp_strokes_collection h (master_collection (ctx_scene w)) (cfra (ctx_scene w)) False tg)"
  have c2: "compute_calls (events w2)
              = compute_calls (events w) + (if absent_or_stale w (cfra (ctx_scene w)) then 1 else 0)"
    by (simp add: w2_def w1_def lanpr_chain_clear_picked_flag_def
        lanpr_compute_feature_lines_internal_def)
  have "pass_step w2 (final m)" unfolding m_def by (rule passes_step)
  then have cm: "compute_calls (events (final m)) = compute_calls (events w2)"
    by (rule pass_step_compute_calls)
  have "update_shape h so tg w
          = then_do m (\<lambda>w4. Finished (add_notifier (lanpr_clear_gp_lanpr_flags h w4 (cfra (ctx_scene w)))))"
    by (simp add: update_shape_def Let_def m_def w2_def w1_def)
  then have "compute_calls (events (final (update_shape h so tg w))) = compute_calls (events (final m))"
    by (cases m) (simp_all add: add_notifier_def)
  with cm c2 show ?thesis by simp
qed

text \<open>
  C2, as the code has it. Every run of the three single-frame operators invokes the
  feature-line computation once when the shared buffer is absent or was computed for another
  frame than the current frame of the scene, and not at all otherwise (also when the run
  crashes later). The external entry point does the same for the evaluated scene, but only
  in software mode: in any other master mode it returns before the test and never computes.
\<close>

theorem compute_iff_absent_or_stale:
  "compute_calls (events (final (lanpr_update_gp_strokes_exec h w)))
     = compute_calls (events w) + (if absent_or_stale w (cfra (ctx_scene w)) then 1 else 0)
   \<and> compute_calls (events (final (lanpr_update_gp_target_exec h w)))
     = compute_calls (events w) + (if absent_or_stale w (cfra (ctx_scene w)) then 1 else 0)
   \<and> compute_calls (events (final (lanpr_update_gp_source_exec h w)))
     = compute_calls (events w) + (if absent_or_stale w (cfra (ctx_scene w)) then 1 else 0)
   \<and> compute_calls (events (ED_lanpr_update_data_for_external h w))
     = compute_calls (events w)
       + (if master_mode (eval_scene w) = LANPR_MASTER_MODE_SOFTWARE
             \<and> absent_or_stale w (cfra (eval_scene w)) then 1 else 0)"
  by (simp add: exec_shapes update_shape_compute_calls ED_lanpr_update_data_for_external_def
      absent_or_stale_def lanpr_compute_feature_lines_internal_def Let_def)

lemma update_shape_log:
  "log_ok (events (final (update_shape h so tg (w\<lparr>events := []\<rparr>))))
   \<and> distinct (emitted (events (final (update_shape h so tg (w\<lparr>events := []\<rparr>)))))"
proof -
  define w0 where "w0 = w\<lparr>events := []\<rparr>"
  define t where "t = events (final (update_shape h so tg w0))"
  define w1 where "w1 = (if absent_or_stale w0 (cfra (ctx_scene w0))
                         then lanpr_compute_feature_lines_internal h w0 else w0)"
  define w2 where "w2 = lanpr_chain_clear_picked_flag w1"
  define m where "m = then_do
      (lanpr_update_gp_strokes_recursive h (master_collection (ctx_scene w0)) (cfra (ctx_scene w0)) so tg w2)
      (lanpr_update_gp_strokes_collection h (master_collection (ctx_scene w0)) (cfra (ctx_scene w0)) False tg)"
  have l1: "log_ok (events w1)" and e1: "emitted (events w1) = []"
    by (simp_all add: w1_def w0_def log_ok_def lanpr_compute_feature_lines_internal_def)
  have i2: "pass_inv w2" unfolding w2_def by (rule inv_after_clear[OF l1])
  have e2: "emitted (events w2) = since_clear (events w2)"
    using e1 by (simp add: w2_def lanpr_chain_clear_picked_flag_def)
  have st: "pass_step w2 (final m)" unfolding m_def by (rule passes_step)
  have im: "pass_inv (final m)" by (rule pass_step_inv[OF st i2])
  have em: "emitted (events (final m)) = since_clear (events (final m))"
    by (rule pass_step_emitted[OF st e2])
  have "update_shape h so tg w0
          = then_do m (\<lambda>w4. Finished (add_notifier (lanpr_clear_gp_lanpr_flags h w4 (cfra (ctx_scene w0)))))"
    by (simp add: update_shape_def Let_def m_def w2_def w1_def)
  then have tt: "t = events (final m) \<or> t = AddNotifier # events (final m)"
    unfolding t_def w0_def[symmetric] by (cases m) (simp_all add: add_notifier_def)
  from im have "log_ok (events (final m))" by (simp add: pass_inv_def)
  moreover from this em have "distinct (emitted (events (final m)))"
    using emitted_once_distinct[of "events (final m)"] by (simp add: log_ok_def)
  ultimately have "log_ok t \<and> distinct (emitted t)" using tt by (auto simp: log_ok_def)
  then show ?thesis unfolding t_def w0_def .
qed

lemma bake_frames_log:
  "log_ok (events w) \<Longrightarrow> log_ok (events (final (lanpr_bake_frames h frame frame_end w)))"
proof (induction h frame frame_end w rule: lanpr_bake_frames.induct)
  case (1 h frame frame_end w)
  show ?case
  proof (cases "frame \<le> frame_end")
    case False
    then show ?thesis using 1(2) by (simp add: lanpr_bake_frames.simps)
  next
    case True
    define w0 where "w0 = w\<lparr>eval_scene := DEG_evaluate_on_framechange h (eval_scene w) frame\<rparr>"
    define w1 where "w1 = lanpr_compute_feature_lines_internal h w0"
    define w2 where "w2 = lanpr_chain_clear_picked_flag w1"
    define m where "m = then_do
        (lanpr_update_gp_strokes_recursive h (master_collection (ctx_scene w)) frame None None w2)
        (lanpr_update_gp_strokes_collection h (master_collection (ctx_scene w)) frame False None)"
    have "log_ok (events w0)" using 1(2) by (simp add: w0_def)
    then have "log_ok (events w1)" unfolding w1_def by (rule log_ok_compute)
    then have "pass_inv w2" unfolding w2_def by (rule inv_after_clear)
    then have im: "pass_inv (final m)" unfolding m_def by (rule passes_inv)
    have e: "lanpr_bake_frames h frame frame_end w
               = then_do m (lanpr_bake_frames h (frame + 1) frame_end)"
      using True
      by (subst lanpr_bake_frames.simps)
        (simp add: Let_def m_def w2_def w1_def w0_def then_do_assoc)
    show ?thesis unfolding e
    proof (rule final_then_do)
      show "log_ok (events (final m))" using im by (simp add: pass_inv_def)
    next
      fix w4 assume f: "m = Finished w4"
      with im have "log_ok (events w4)" by (simp add: pass_inv_def)
      then show "log_ok (events (final (lanpr_bake_frames h (frame + 1) frame_end w4)))"
        by (rule 1(1)[OF True refl refl refl refl]) 
    qed
  qed
qed

lemma then_do_weak_cong: "m = m' \<Longrightarrow> then_do m f = then_do m' f"
  by simp

lemma demo_run:
  "events (final (lanpr_update_gp_strokes_exec demo_host
      (demo_world LANPR_MASTER_MODE_SOFTWARE (Some demo_buffer))))
   = [AddNotifier, TagUpdate 3, AddStroke 1, SetPicked 1, TagUpdate 3, AddStroke 0, SetPicked 0,
      ClearPickedFlag]"
  by (simp add: lanpr_update_gp_strokes_exec_def demo_world_def demo_host_def demo_scene_def
      demo_collection_def demo_buffer_def mesh_ob_def gp_ob_def Let_def
      lanpr_chain_clear_picked_flag_def emit_to_target_def
      lanpr_generate_gpencil_from_chain_def chain_verdict_def add_notifier_def
      lanpr_clear_gp_lanpr_flags_def cong: then_do_weak_cong)

lemma filter_upt_Suc:
  "[k\<leftarrow>[0..<Suc n]. P k] = (if P 0 then [0] else []) @ map Suc [k\<leftarrow>[0..<n]. P (Suc k)]"
proof -
  have "[0..<Suc n] = 0 # map Suc [0..<n]"
    by (simp add: upt_conv_Cons map_Suc_upt del: upt_Suc)
  then show ?thesis by (simp add: filter_map comp_def del: upt_Suc)
qed

lemma generate_loop_result:
  assumes "generate_loop h ob gpf qb qe m col ty i cs g t = (cs', g', t')"
  shows "cs' = map (\<lambda>rlc. if chain_verdict h ob qb qe col ty rlc = Emit
                          then rlc\<lparr>picked := True\<rparr> else rlc) cs
       \<and> emitted t'
           = rev (map (\<lambda>k. i + k)
                   [k\<leftarrow>[0..<length cs]. chain_verdict h ob qb qe col ty (cs ! k) = Emit])
             @ emitted t"
  using assms
proof (induction cs arbitrary: i g t cs' g' t')
  case Nil
  then show ?case by simp
next
  case (Cons rlc rest)
  show ?case
  proof (cases "chain_verdict h ob qb qe col ty rlc = Emit")
    case False
    with Cons.prems obtain rest' where
      r: "generate_loop h ob gpf qb qe m col ty (i + 1) rest g t = (rest', g', t')"
      and c: "cs' = rlc # rest'"
      by (auto split: prod.splits)
    from Cons.IH[OF r] False c show ?thesis
      by (simp add: filter_upt_Suc comp_def del: upt_Suc)
  next
    case True
    with Cons.prems obtain rest' g3 where
      r: "generate_loop h ob gpf qb qe m col ty (i + 1) rest g3
            (AddStroke i # SetPicked i # t) = (rest', g', t')"
      and c: "cs' = rlc\<lparr>picked := True\<rparr> # rest'"
      by (auto simp: Let_def split: prod.splits)
    from Cons.IH[OF r] True c show ?thesis
      by (simp add: filter_upt_Suc comp_def del: upt_Suc)
  qed
qed

theorem compute_iff_absent_or_stale_witness:
  "compute_calls (events (final (lanpr_update_gp_strokes_exec demo_host
       (demo_world LANPR_MASTER_MODE_SOFTWARE None)))) = 1
   \<and> compute_calls (events (final (lanpr_update_gp_strokes_exec demo_host
       (demo_world LANPR_MASTER_MODE_SOFTWARE (Some demo_buffer))))) = 0
   \<and> compute_calls (events (final (lanpr_update_gp_target_exec demo_host
       (demo_world LANPR_MASTER_MODE_SOFTWARE (Some (demo_buffer\<lparr>cached_for_frame := 4\<rparr>)))))) = 1
   \<and> compute_calls (events (final (lanpr_update_gp_source_exec demo_host
       (demo_world LANPR_MASTER_MODE_SOFTWARE (Some demo_buffer))))) = 0
   \<and> compute_calls (events (ED_lanpr_update_data_for_external demo_host
       (demo_world LANPR_MASTER_MODE_SOFTWARE None))) = 1
   \<and> compute_calls (events (ED_lanpr_update_data_for_external demo_host
       (demo_world LANPR_MASTER_MODE_DPIX None))) = 0"
  using compute_iff_absent_or_stale[of demo_host "demo_world LANPR_MASTER_MODE_SOFTWARE None"]
    compute_iff_absent_or_stale[of demo_host
      "demo_world LANPR_MASTER_MODE_SOFTWARE (Some demo_buffer)"]
    compute_iff_absent_or_stale[of demo_host
      "demo_world LANPR_MASTER_MODE_SOFTWARE (Some (demo_buffer\<lparr>cached_for_frame := 4\<rparr>))"]
    compute_iff_absent_or_stale[of demo_host "demo_world LANPR_MASTER_MODE_DPIX None"]
  by (simp add: absent_or_stale_def demo_world_def demo_scene_def demo_buffer_def)

text \<open>
  C2 as stated fails for the external entry point: in a scene whose master mode is not the
  software mode the buffer is absent and the computation is not invoked.
\<close>

theorem external_update_counterexample:
  "render_buffer_shared (demo_world LANPR_MASTER_MODE_DPIX None) = None
   \<and> events (demo_world LANPR_MASTER_MODE_DPIX None) = []
   \<and> events (ED_lanpr_update_data_for_external demo_host (demo_world LANPR_MASTER_MODE_DPIX None))
       = []"
  by (simp add: ED_lanpr_update_data_for_external_def demo_world_def demo_scene_def Let_def)

lemma bake_exec_log:
  "log_ok (events (final (lanpr_bake_gp_strokes_exec h (w\<lparr>events := []\<rparr>))))"
proof -
  define w0 where "w0 = w\<lparr>events := []\<rparr>"
  define m where "m = lanpr_bake_frames h (sfra (ctx_scene w0)) (efra (ctx_scene w0)) w0"
  have "log_ok (events w0)" by (simp add: w0_def log_ok_def)
  then have "log_ok (events (final m))" unfolding m_def by (rule bake_frames_log)
  moreover have "lanpr_bake_gp_strokes_exec h w0 = then_do m (\<lambda>w'. Finished (add_notifier w'))"
    by (simp add: lanpr_bake_gp_strokes_exec_def m_def Let_def)
  ultimately show ?thesis unfolding w0_def[symmetric]
    by (cases m) (simp_all add: add_notifier_def log_ok_def)
qed

text \<open>
  C3, as the code has it. In every run of an update or bake operator, started on an empty
  log: no stroke is added unless the picked flags have been cleared since the last
  computation; the event just before a stroke is the marking of its chain; and no chain gets
  two strokes between two clearings of the flags. An update operator clears once, so no
  chain is emitted twice in its whole run, across the per-object and the per-collection
  pass. The bake operator clears the flags again for every frame. The clearing itself
  leaves no chain of the buffer marked.
\<close>

theorem picked_flag_discipline:
  "log_ok (events (final (lanpr_update_gp_strokes_exec h (w\<lparr>events := []\<rparr>))))
   \<and> distinct (emitted (events (final (lanpr_update_gp_strokes_exec h (w\<lparr>events := []\<rparr>)))))
   \<and> log_ok (events (final (lanpr_update_gp_target_exec h (w\<lparr>events := []\<rparr>))))
   \<and> distinct (emitted (events (final (lanpr_update_gp_target_exec h (w\<lparr>events := []\<rparr>)))))
   \<and> log_ok (events (final (lanpr_update_gp_source_exec h (w\<lparr>events := []\<rparr>))))
   \<and> distinct (emitted (events (final (lanpr_update_gp_source_exec h (w\<lparr>events := []\<rparr>)))))
   \<and> log_ok (events (final (lanpr_bake_gp_strokes_exec h (w\<lparr>events := []\<rparr>))))
   \<and> list_all (\<lambda>rlc. \<not> picked rlc)
        (case render_buffer_shared (lanpr_chain_clear_picked_flag w) of
           None \<Rightarrow> [] | Some rb \<Rightarrow> chains rb)"
proof -
  have "list_all (\<lambda>rlc. \<not> picked rlc)
          (case render_buffer_shared (lanpr_chain_clear_picked_flag w) of
             None \<Rightarrow> [] | Some rb \<Rightarrow> chains rb)"
    by (cases "render_buffer_shared w")
      (simp_all add: lanpr_chain_clear_picked_flag_def list_all_iff)
  then show ?thesis
    using update_shape_log[of h None None w]
      update_shape_log[of h None "ctx_active_object w" w]
      update_shape_log[of h "ctx_active_object w" None w]
      bake_exec_log[of h w]
    by (simp add: exec_shapes)
qed

theorem picked_flag_discipline_witness:
  "events (final (lanpr_update_gp_strokes_exec demo_host
      (demo_world LANPR_MASTER_MODE_SOFTWARE (Some demo_buffer))))
     = [AddNotifier, TagUpdate 3, AddStroke 1, SetPicked 1, TagUpdate 3, AddStroke 0,
        SetPicked 0, ClearPickedFlag]
   \<and> log_ok (events (final (lanpr_update_gp_strokes_exec demo_host
        (demo_world LANPR_MASTER_MODE_SOFTWARE (Some demo_buffer)))))
   \<and> distinct (emitted (events (final (lanpr_update_gp_strokes_exec demo_host
        (demo_world LANPR_MASTER_MODE_SOFTWARE (Some demo_buffer))))))
   \<and> log_ok (events (final (lanpr_bake_gp_strokes_exec demo_host
        (demo_world LANPR_MASTER_MODE_SOFTWARE (Some demo_buffer)))))
   \<and> list_all (\<lambda>rlc. \<not> picked rlc)
        (case render_buffer_shared (lanpr_chain_clear_picked_flag
                 (demo_world LANPR_MASTER_MODE_SOFTWARE (Some demo_buffer))) of
           None \<Rightarrow> [] | Some rb \<Rightarrow> chains rb)"
proof -
  have e: "(demo_world LANPR_MASTER_MODE_SOFTWARE (Some demo_buffer))\<lparr>events := []\<rparr>
             = demo_world LANPR_MASTER_MODE_SOFTWARE (Some demo_buffer)"
    by (simp add: demo_world_def)
  show ?thesis
    using picked_flag_discipline[of demo_host
        "demo_world LANPR_MASTER_MODE_SOFTWARE (Some demo_buffer)"] demo_run
    unfolding e by simp
qed

text \<open>
  C4, as the code has it. With a buffer and in software mode, stroke emission walks the
  chain list once, front to back: the chains that get a stroke are those that survive all
  filters, each once, in list order, and exactly those are marked. The first filter that
  applies is, in this order: already picked; on the per-object pass, a chain without object;
  the type bitmask; the level range (a chain passes when \<open>qi_begin \<le> level \<le> qi_end\<close>);
  and only then the object of the pass and membership in the collection of the pass. The
  chains accepted are the same as under the order of the spec.
\<close>

theorem generate_filter_order:
  assumes "render_buffer_shared w = Some rb"
    and "master_mode (eval_scene w) = LANPR_MASTER_MODE_SOFTWARE"
  shows "emitted (events (lanpr_generate_gpencil_from_chain h w ob gpl gpf qb qe m col ty))
           = rev [k\<leftarrow>[0..<length (chains rb)].
                    chain_verdict h ob qb qe col ty (chains rb ! k) = Emit]
             @ emitted (events w)
       \<and> render_buffer_shared (lanpr_generate_gpencil_from_chain h w ob gpl gpf qb qe m col ty)
           = Some (rb\<lparr>chains := map (\<lambda>rlc. if chain_verdict h ob qb qe col ty rlc = Emit
                                           then rlc\<lparr>picked := True\<rparr> else rlc) (chains rb)\<rparr>)
       \<and> (chain_verdict h ob qb qe col ty rlc = Emit \<longleftrightarrow>
            \<not> picked rlc
            \<and> (\<forall>b. ob = Some b \<longrightarrow> object_ref rlc = Some (ob_addr b))
            \<and> chain_type rlc AND ty \<noteq> 0
            \<and> qb \<le> level rlc \<and> level rlc \<le> qe
            \<and> (\<forall>c a. col = Some c \<and> object_ref rlc = Some a
                  \<longrightarrow> BKE_collection_has_object_recursive h c a))
       \<and> (picked rlc \<longrightarrow> chain_verdict h ob qb qe col ty rlc = SkipPicked)
       \<and> (\<not> picked rlc \<and> ob \<noteq> None \<and> object_ref rlc = None
            \<longrightarrow> chain_verdict h ob qb qe col ty rlc = SkipNoObject)
       \<and> (\<not> picked rlc \<and> \<not> (ob \<noteq> None \<and> object_ref rlc = None) \<and> chain_type rlc AND ty = 0
            \<longrightarrow> chain_verdict h ob qb qe col ty rlc = SkipType)
       \<and> (\<not> picked rlc \<and> \<not> (ob \<noteq> None \<and> object_ref rlc = None) \<and> chain_type rlc AND ty \<noteq> 0
            \<and> (level rlc > qe \<or> level rlc < qb)
            \<longrightarrow> chain_verdict h ob qb qe col ty rlc = SkipLevel)
       \<and> (chain_verdict h ob qb qe col ty rlc = SkipOtherObject
            \<or> chain_verdict h ob qb qe col ty rlc = SkipNotInCollection
            \<longrightarrow> chain_type rlc AND ty \<noteq> 0 \<and> qb \<le> level rlc \<and> level rlc \<le> qe)
       \<and> (chain_verdict h ob qb qe col ty rlc = Emit
            \<longleftrightarrow> spec_chain_verdict h ob qb qe col ty rlc = Emit)"
proof -
  obtain cs g t where
    l: "generate_loop h ob gpf qb qe m col ty 0 (chains rb) (gpencil w) (events w) = (cs, g, t)"
    by (cases "generate_loop h ob gpf qb qe m col ty 0 (chains rb) (gpencil w) (events w)") auto
  from generate_loop_result[OF l] assms l
  have a: "emitted (events (lanpr_generate_gpencil_from_chain h w ob gpl gpf qb qe m col ty))
           = rev [k\<leftarrow>[0..<length (chains rb)].
                    chain_verdict h ob qb qe col ty (chains rb ! k) = Emit]
             @ emitted (events w)"
    and b: "render_buffer_shared (lanpr_generate_gpencil_from_chain h w ob gpl gpf qb qe m col ty)
           = Some (rb\<lparr>chains := map (\<lambda>rlc. if chain_verdict h ob qb qe col ty rlc = Emit
                                           then rlc\<lparr>picked := True\<rparr> else rlc) (chains rb)\<rparr>)"
    by (simp_all add: lanpr_generate_gpencil_from_chain_def)
  have c: "chain_verdict h ob qb qe col ty rlc = Emit \<longleftrightarrow>
            \<not> picked rlc
            \<and> (\<forall>b. ob = Some b \<longrightarrow> object_ref rlc = Some (ob_addr b))
            \<and> chain_type rlc AND ty \<noteq> 0
            \<and> qb \<le> level rlc \<and> level rlc \<le> qe
            \<and> (\<forall>c a. col = Some c \<and> object_ref rlc = Some a
                  \<longrightarrow> BKE_collection_has_object_recursive h c a)"
    by (cases ob; cases col; cases "object_ref rlc") (auto simp: chain_verdict_def)
  have d: "chain_verdict h ob qb qe col ty rlc = Emit
            \<longleftrightarrow> spec_chain_verdict h ob qb qe col ty rlc = Emit"
    by (auto simp: chain_verdict_def spec_chain_verdict_def)
  have e: "chain_verdict h ob qb qe col ty rlc = SkipOtherObject
            \<or> chain_verdict h ob qb qe col ty rlc = SkipNotInCollection
            \<longrightarrow> chain_type rlc AND ty \<noteq> 0 \<and> qb \<le> level rlc \<and> level rlc \<le> qe"
    by (auto simp: chain_verdict_def split: if_splits)
  have p1: "picked rlc \<longrightarrow> chain_verdict h ob qb qe col ty rlc = SkipPicked"
    and p2: "\<not> picked rlc \<and> ob \<noteq> None \<and> object_ref rlc = None
            \<longrightarrow> chain_verdict h ob qb qe col ty rlc = SkipNoObject"
    and p3: "\<not> picked rlc \<and> \<not> (ob \<noteq> None \<and> object_ref rlc = None) \<and> chain_type rlc AND ty = 0
            \<longrightarrow> chain_verdict h ob qb qe col ty rlc = SkipType"
    and p4: "\<not> picked rlc \<and> \<not> (ob \<noteq> None \<and> object_ref rlc = None) \<and> chain_type rlc AND ty \<noteq> 0
            \<and> (level rlc > qe \<or> level rlc < qb)
            \<longrightarrow> chain_verdict h ob qb qe col ty rlc = SkipLevel"
    by (simp_all add: chain_verdict_def)
  show ?thesis
    apply (intro conjI)
            apply (rule a)
           apply (rule b)
          apply (rule c)
         apply (rule p1)
        apply (rule p2)
       apply (rule p3)
      apply (rule p4)
     apply (rule e)
    apply (rule d)
    done
qed

theorem generate_filter_order_witness:
  "render_buffer_shared (demo_world LANPR_MASTER_MODE_SOFTWARE (Some demo_buffer))
     = Some demo_buffer
   \<and> master_mode (eval_scene (demo_world LANPR_MASTER_MODE_SOFTWARE (Some demo_buffer)))
     = LANPR_MASTER_MODE_SOFTWARE
   \<and> [k\<leftarrow>[0..<length (chains demo_buffer)].
         chain_verdict demo_host None 0 0 (Some demo_collection) 1 (chains demo_buffer ! k) = Emit]
     = [1]
   \<and> emitted (events (lanpr_generate_gpencil_from_chain demo_host
        (demo_world LANPR_MASTER_MODE_SOFTWARE (Some demo_buffer)) None 0 0 0 0 0
        (Some demo_collection) 1)) = [1]
   \<and> chain_verdict demo_host (Some mesh_ob) 0 0 None 2 other_chain = SkipType"
proof -
  have h: "render_buffer_shared (demo_world LANPR_MASTER_MODE_SOFTWARE (Some demo_buffer))
             = Some demo_buffer"
    "master_mode (eval_scene (demo_world LANPR_MASTER_MODE_SOFTWARE (Some demo_buffer)))
       = LANPR_MASTER_MODE_SOFTWARE"
    by (simp_all add: demo_world_def demo_scene_def)
  have e: "events (demo_world LANPR_MASTER_MODE_SOFTWARE (Some demo_buffer)) = []"
    by (simp add: demo_world_def)
  have f: "[k\<leftarrow>[0..<length (chains demo_buffer)].
         chain_verdict demo_host None 0 0 (Some demo_collection) 1 (chains demo_buffer ! k) = Emit]
     = [1]"
    by (simp add: chain_verdict_def demo_buffer_def upt_rec)
  have t: "chain_verdict demo_host (Some mesh_ob) 0 0 None 2 other_chain = SkipType"
    by (simp add: chain_verdict_def other_chain_def)
  from generate_filter_order[OF h, of demo_host None 0 0 0 0 0 "Some demo_collection" 1
        other_chain]
  have "emitted (events (lanpr_generate_gpencil_from_chain demo_host
        (demo_world LANPR_MASTER_MODE_SOFTWARE (Some demo_buffer)) None 0 0 0 0 0
        (Some demo_collection) 1)) = [1]"
    unfolding f e by simp
  with h f t show ?thesis by simp
qed

text \<open>
  C4 as stated fails on the order: a chain of another object whose type does not match is
  rejected by the type filter; under the stated order the object filter would have
  rejected it first.
\<close>

theorem filter_order_counterexample:
  "chain_verdict demo_host (Some mesh_ob) 0 0 None 2 other_chain = SkipType
   \<and> spec_chain_verdict demo_host (Some mesh_ob) 0 0 None 2 other_chain = SkipOtherObject"
  by (simp add: chain_verdict_def spec_chain_verdict_def other_chain_def mesh_ob_def)

text \<open>
  C3 as stated fails for the bake operator: it clears the flags for every frame, so a chain
  that is still in the buffer at the next frame is emitted again. Here the engine leaves the
  buffer in place, and baking the frames 5 and 6 emits each of the two chains twice.
\<close>

theorem bake_emits_again_counterexample:
  "emitted (events (final (lanpr_bake_gp_strokes_exec keep_host
      (demo_world LANPR_MASTER_MODE_SOFTWARE (Some demo_buffer))))) = [1, 0, 1, 0]
   \<and> \<not> distinct (emitted (events (final (lanpr_bake_gp_strokes_exec keep_host
        (demo_world LANPR_MASTER_MODE_SOFTWARE (Some demo_buffer))))))"
proof -
  have "emitted (events (final (lanpr_bake_gp_strokes_exec keep_host
      (demo_world LANPR_MASTER_MODE_SOFTWARE (Some demo_buffer))))) = [1, 0, 1, 0]"
    by (simp add: lanpr_bake_gp_strokes_exec_def lanpr_bake_frames.simps keep_host_def
        demo_world_def demo_host_def demo_scene_def
        demo_collection_def demo_buffer_def mesh_ob_def gp_ob_def Let_def
        lanpr_chain_clear_picked_flag_def emit_to_target_def
        lanpr_compute_feature_lines_internal_def
        lanpr_generate_gpencil_from_chain_def chain_verdict_def add_notifier_def
        cong: then_do_weak_cong)
  then show ?thesis by simp
qed

end
